theory Spec2Isabelle
  imports Complex_Main "HOL-Library.Product_Lexorder" "HOL-Library.Multiset" "HOL-Library.Log_Nat"
begin

section \<open>Binary64 arithmetic\<close>

text \<open>
  The importance score is rounded to thousandths, so its value depends on the rounding of
  the floating-point operations before. A binary64 number is modelled as the rational it
  denotes, and an arithmetic operation of the code as the exact operation followed by
  \<open>binary64\<close>: round to nearest with 53 significant bits, ties to the even significand.
  The exponent range is not modelled (no overflow, no subnormal numbers); the scores and
  dates of the services are far inside it.
\<close>

text \<open>For \<open>x > 0\<close>, the exponent \<open>e\<close> with \<open>2\<^sup>e \<le> x < 2\<^sup>e\<^sup>+\<^sup>1\<close>.\<close>

definition ilog2 :: "rat \<Rightarrow> int" where
  "ilog2 x =
     (let (p, q) = quotient_of x;
          k = bitlen p - bitlen q
      in if power_int 2 k \<le> x then k else k - 1)"

definition roundHalfEven :: "rat \<Rightarrow> int" where
  "roundHalfEven y =
     (let f = \<lfloor>y\<rfloor>;
          r = y - of_int f
      in if r < 1 / 2 then f
         else if 1 / 2 < r then f + 1
         else if even f then f else f + 1)"

definition binary64 :: "rat \<Rightarrow> rat" where
  "binary64 x =
     (if x = 0 then 0
      else let a = \<bar>x\<bar>;
               ulp = power_int 2 (ilog2 a - 52)
           in sgn x * (of_int (roundHalfEven (a / ulp)) * ulp))"

text \<open>The four operations of the code on binary64 numbers.\<close>

definition fadd :: "rat \<Rightarrow> rat \<Rightarrow> rat" where
  "fadd x y = binary64 (x + y)"

definition fsub :: "rat \<Rightarrow> rat \<Rightarrow> rat" where
  "fsub x y = binary64 (x - y)"

definition fmul :: "rat \<Rightarrow> rat \<Rightarrow> rat" where
  "fmul x y = binary64 (x * y)"

definition fdiv :: "rat \<Rightarrow> rat \<Rightarrow> rat" where
  "fdiv x y = binary64 (x / y)"

text \<open>The unit roundoff \<open>2\<^sup>-\<^sup>5\<^sup>3\<close>: the relative error of one rounding is at most \<open>eps64\<close>.\<close>

definition eps64 :: rat where
  "eps64 = 1 / 9007199254740992"

section \<open>Text primitives\<close>

text \<open>
  JavaScript strings are modelled as \<^typ>\<open>string\<close>; the text functions of the
  services are ASCII-oriented (\<^verbatim>\<open>\w\<close>, \<^verbatim>\<open>\s\<close>), and the model covers ASCII text:
  a character outside ASCII is neither a word character nor white space and is left
  alone by \<^verbatim>\<open>toLowerCase\<close>. The similarities of texts and the ratios and averages over
  the links of a story are modelled as exact rationals, the importance scores are computed
  in the binary64 arithmetic above, and dates are integer milliseconds.
\<close>

definition isSpace :: "char \<Rightarrow> bool" where
  "isSpace c = (c \<in> set [CHR '' '', CHR 0x09, CHR 0x0A, CHR 0x0B, CHR 0x0C, CHR 0x0D])"

definition upperChars :: string where
  "upperChars = ''ABCDEFGHIJKLMNOPQRSTUVWXYZ''"

definition lowerChars :: string where
  "lowerChars = ''abcdefghijklmnopqrstuvwxyz''"

text \<open>The class \<^verbatim>\<open>\w\<close> is \<^verbatim>\<open>[A-Za-z0-9_]\<close>.\<close>

definition isWordChar :: "char \<Rightarrow> bool" where
  "isWordChar c = (c \<in> set (upperChars @ lowerChars @ ''0123456789_''))"

definition lowerChar :: "char \<Rightarrow> char" where
  "lowerChar c = (case map_of (zip upperChars lowerChars) c of Some l \<Rightarrow> l | None \<Rightarrow> c)"

definition toLowerCase :: "string \<Rightarrow> string" where
  "toLowerCase s = map lowerChar s"

text \<open>\<^verbatim>\<open>text.split(/\s+/)\<close>: the pieces between maximal runs of white space; a
  leading or trailing run leaves an empty piece at that end, as in JavaScript.\<close>

fun splitWs :: "string \<Rightarrow> bool \<Rightarrow> string \<Rightarrow> string list" where
  "splitWs cur sp [] = [cur]"
| "splitWs cur sp (c # cs) =
     (if isSpace c then (if sp then splitWs cur True cs else cur # splitWs [] True cs)
      else splitWs (cur @ [c]) False cs)"

definition split_ws :: "string \<Rightarrow> string list" where
  "split_ws s = splitWs [] False s"

text \<open>\<^verbatim>\<open>words.join(' ')\<close>.\<close>

fun join_sp :: "string list \<Rightarrow> string" where
  "join_sp [] = []"
| "join_sp [w] = w"
| "join_sp (w # ws) = w @ '' '' @ join_sp ws"


section \<open>Similarity engine (clusteringService)\<close>

definition stopwords :: "string list" where
  "stopwords =
    [''the'', ''a'', ''an'', ''and'', ''or'', ''but'', ''in'', ''on'', ''at'', ''to'', ''for'',
     ''of'', ''with'', ''by'', ''from'', ''as'', ''is'', ''was'', ''are'', ''were'', ''been'',
     ''be'', ''have'', ''has'', ''had'', ''do'', ''does'', ''did'', ''will'', ''would'', ''could'',
     ''should'', ''may'', ''might'', ''must'', ''shall'', ''can'', ''need'', ''dare'', ''ought'',
     ''used'', ''said'', ''says'', ''that'', ''this'', ''these'', ''those'', ''what'', ''which'',
     ''who'', ''whom'', ''whose'', ''when'', ''where'', ''why'', ''how'', ''all'', ''each'',
     ''every'', ''both'', ''few'', ''more'', ''most'', ''other'', ''some'', ''such'', ''only'',
     ''own'', ''same'', ''than'', ''too'', ''very'', ''just'', ''also'', ''now'', ''here'']"

text \<open>\<^verbatim>\<open>text.toLowerCase().replace(/[^\w\s]/g, ' ').split(/\s+/).filter(...)\<close>\<close>

definition extractWords :: "string \<Rightarrow> string list" where
  "extractWords text =
     filter (\<lambda>word. length word > 3 \<and> word \<notin> set stopwords)
       (split_ws (map (\<lambda>c. if isWordChar c \<or> isSpace c then c else CHR '' '') (toLowerCase text)))"

text \<open>\<^verbatim>\<open>calculateSimilarity\<close>. A \<^verbatim>\<open>Set\<close> built from an array holds each element once;
  only membership and sizes are read here, so it is the list without its duplicates.\<close>

definition calculateSimilarity :: "string \<Rightarrow> string \<Rightarrow> rat" where
  "calculateSimilarity text1 text2 =
     (if text1 = [] \<or> text2 = [] then 0
      else let words1 = remdups (extractWords text1);
               words2 = remdups (extractWords text2)
           in if length words1 = 0 \<or> length words2 = 0 then 0
              else let intersection = length (filter (\<lambda>w. w \<in> set words2) words1);
                       union = length (remdups (words1 @ words2))
                   in of_nat intersection / of_nat union)"

text \<open>\<^verbatim>\<open>extractPhrases(text, n)\<close>: the loop \<^verbatim>\<open>for (i = 0; i <= words.length - n; i++)\<close>
  runs for \<open>i = 0, \<dots>, length words - n\<close>, and not at all when \<open>n > length words\<close>.\<close>

definition extractPhrases :: "string \<Rightarrow> nat \<Rightarrow> string list" where
  "extractPhrases text n =
     (let words = filter (\<lambda>w. length w > 2) (split_ws text)
      in map (\<lambda>i. join_sp (take n (drop i words))) [0 ..< length words + 1 - n])"

definition calculateTitleSimilarity :: "string \<Rightarrow> string \<Rightarrow> rat" where
  "calculateTitleSimilarity title1 title2 =
     (let similarity = calculateSimilarity title1 title2;
          t1 = toLowerCase title1;
          t2 = toLowerCase title2;
          phrases1 = extractPhrases t1 3;
          phrases2 = extractPhrases t2 3;
          sharedPhrases = length (filter (\<lambda>p. p \<in> set phrases2) phrases1);
          phraseBonus = min (of_nat sharedPhrases * (1 / 10)) (3 / 10)
      in min (similarity + phraseBonus) 1)"

text \<open>An article as the services read it. A field that may be \<^verbatim>\<open>undefined\<close> is an
  option; \<^verbatim>\<open>x || ''\<close> is \<open>orEmpty\<close> and \<^verbatim>\<open>x || d\<close> is \<open>orElse\<close> (the empty string is
  falsy as well). Fields of the article that share a name with a field of the story
  carry the prefix \<open>a_\<close>.\<close>

record article =
  aid :: nat
  title :: "string option"
  description :: "string option"
  content :: "string option"
  url :: "string option"
  source :: "string option"
  publishedAt :: "int option"
  a_category :: "string option"
  a_summary :: "string option"
  a_whyThisMatters :: "string option"
  a_mood :: "string option"

definition orElse :: "string option \<Rightarrow> string \<Rightarrow> string" where
  "orElse x d = (case x of None \<Rightarrow> d | Some s \<Rightarrow> if s = [] then d else s)"

definition orEmpty :: "string option \<Rightarrow> string" where
  "orEmpty x = (case x of None \<Rightarrow> [] | Some s \<Rightarrow> s)"


subsection \<open>Sliding windows\<close>






section \<open>Stories and the importance score\<close>

text \<open>The Story document, with the fields the clustering, ranking and context services
  read or write.\<close>

record story =
  sid :: nat
  canonicalTitle :: string
  summary :: string
  whyThisMatters :: string
  mood :: string
  category :: string
  sourceCount :: nat
  sourceDiversity :: rat
  averageCredibility :: rat
  importanceScore :: rat
  firstSeen :: int
  lastUpdated :: int

text \<open>\<^verbatim>\<open>x || d\<close> on numbers: 0 is falsy.\<close>

definition orNum :: "rat \<Rightarrow> rat \<Rightarrow> rat" where
  "orNum x d = (if x = 0 then d else x)"

text \<open>\<^verbatim>\<open>Math.round(x)\<close> is \<open>\<lfloor>x + 1/2\<rfloor>\<close>, taken exactly on the binary64 number \<open>x\<close>.\<close>

definition Math_round :: "rat \<Rightarrow> int" where
  "Math_round x = \<lfloor>x + 1 / 2\<rfloor>"

text \<open>The weights are the binary64 numbers of the literals \<^verbatim>\<open>0.30\<close>, \<^verbatim>\<open>0.25\<close>, \<^verbatim>\<open>0.25\<close>,
  \<^verbatim>\<open>0.20\<close>. A number field of a document holds a rational \<open>r\<close> and stands for the binary64
  number nearest to \<open>r\<close>: the scores and the ordering by stored score read it as
  \<open>binary64 r\<close>. So a literal such as \<^verbatim>\<open>0.85\<close> is the field value \<open>17/20\<close>, the diversity
  \<^verbatim>\<open>size / 6\<close> is the field value \<open>n/6\<close>, and the average credibility, which the database
  computes, is taken as correctly rounded; a score that the code stores is a binary64
  number already.\<close>

definition SOURCE_COUNT :: rat where "SOURCE_COUNT = binary64 (30 / 100)"
definition SOURCE_DIVERSITY :: rat where "SOURCE_DIVERSITY = binary64 (25 / 100)"
definition CREDIBILITY :: rat where "CREDIBILITY = binary64 (25 / 100)"
definition RECENCY :: rat where "RECENCY = binary64 (20 / 100)"
definition MAX_RECENCY_HOURS :: rat where "MAX_RECENCY_HOURS = 24"

text \<open>The recency term of \<^verbatim>\<open>calculateImportanceScore\<close>; \<open>now\<close> is \<^verbatim>\<open>Date.now()\<close>.\<close>

definition ageHours :: "int \<Rightarrow> story \<Rightarrow> rat" where
  "ageHours now st = fdiv (binary64 (of_int (now - firstSeen st))) (1000 * 60 * 60)"

definition recencyScore :: "int \<Rightarrow> story \<Rightarrow> rat" where
  "recencyScore now st = max 0 (fsub 1 (fdiv (ageHours now st) MAX_RECENCY_HOURS))"

text \<open>\<^verbatim>\<open>calmRankingService.calculateImportanceScore\<close>\<close>

definition calculateImportanceScore :: "int \<Rightarrow> story \<Rightarrow> rat" where
  "calculateImportanceScore now st =
     (let sourceScore = min (fdiv (of_nat (sourceCount st)) 10) 1;
          diversityScore = orNum (binary64 (sourceDiversity st)) 0;
          credibilityScore = orNum (binary64 (averageCredibility st)) (1 / 2);
          score = fadd (fadd (fadd (fmul sourceScore SOURCE_COUNT)
                                   (fmul diversityScore SOURCE_DIVERSITY))
                             (fmul credibilityScore CREDIBILITY))
                       (fmul (recencyScore now st) RECENCY)
      in fdiv (of_int (Math_round (fmul score 1000))) 1000)"

text \<open>The weighted sum of the specification in exact arithmetic, before rounding, and
  the rounding to 3 decimal places.\<close>

definition spec_score_sum :: "int \<Rightarrow> story \<Rightarrow> rat" where
  "spec_score_sum now st =
     30 / 100 * min (of_nat (sourceCount st) / 10) 1 + 25 / 100 * sourceDiversity st +
     25 / 100 * averageCredibility st +
     20 / 100 * max 0 (1 - of_int (now - firstSeen st) / (1000 * 60 * 60) / 24)"

definition spec_round3 :: "rat \<Rightarrow> rat" where
  "spec_round3 x = of_int \<lfloor>x * 1000 + 1 / 2\<rfloor> / 1000"

text \<open>The same sum with every operation in binary64, from left to right.\<close>

definition spec_score_float :: "int \<Rightarrow> story \<Rightarrow> rat" where
  "spec_score_float now st =
     fadd (fadd (fadd (fmul (binary64 (30 / 100)) (min (fdiv (of_nat (sourceCount st)) 10) 1))
                      (fmul (binary64 (25 / 100)) (binary64 (sourceDiversity st))))
                (fmul (binary64 (25 / 100)) (binary64 (averageCredibility st))))
          (fmul (binary64 (20 / 100))
             (max 0 (fsub 1 (fdiv (fdiv (binary64 (of_int (now - firstSeen st)))
                                        (1000 * 60 * 60)) 24))))"

text \<open>The value \<^verbatim>\<open>Story.recalculateImportance\<close> stores: the same weights, no defaults
  and no rounding to thousandths.\<close>

definition importanceOf :: "int \<Rightarrow> story \<Rightarrow> rat" where
  "importanceOf now st =
     (let sourceWeight = binary64 (30 / 100);
          diversityWeight = binary64 (25 / 100);
          credibilityWeight = binary64 (25 / 100);
          recencyWeight = binary64 (20 / 100);
          ageHours = fdiv (binary64 (of_int (now - firstSeen st))) (1000 * 60 * 60);
          recencyScore = max 0 (fsub 1 (fdiv ageHours 24));
          sourceScore = min (fdiv (of_nat (sourceCount st)) 10) 1
      in fadd (fadd (fadd (fmul sourceScore sourceWeight)
                          (fmul (binary64 (sourceDiversity st)) diversityWeight))
                    (fmul (binary64 (averageCredibility st)) credibilityWeight))
              (fmul recencyScore recencyWeight))"


section \<open>The document store\<close>

text \<open>
  The collections are lists in insertion order. An operation returns the store it leaves
  behind together with either an error (a rejected promise) or its value: a write made
  before an exception stays in the store. All clock reads of one operation see the same
  instant \<open>now\<close>. The schemas' \<^verbatim>\<open>trim\<close> setters are not modelled: the articles handed to
  the clustering service are News documents, whose title and source are stored trimmed.
\<close>

datatype error = StoryNotFound | ValidationError | DuplicateKey | BadValue

record source_doc =
  name :: string
  src_credibilityScore :: rat
  sourceType :: string
  totalArticles :: nat
  lastSeenAt :: int

record storySource =
  storyId :: nat
  articleId :: nat
  sourceName :: string
  originalHeadline :: "string option"
  link_url :: string
  link_publishedAt :: int
  credibilityScore :: rat
  isPrimary :: bool
  similarityScore :: rat

record db =
  stories :: "story list"
  storySources :: "storySource list"
  sources :: "source_doc list"

fun replaceFirst :: "('a \<Rightarrow> bool) \<Rightarrow> 'a \<Rightarrow> 'a list \<Rightarrow> 'a list" where
  "replaceFirst P y [] = []"
| "replaceFirst P y (x # xs) = (if P x then y # xs else x # replaceFirst P y xs)"

definition findById :: "db \<Rightarrow> nat \<Rightarrow> story option" where
  "findById d i = find (\<lambda>st. sid st = i) (stories d)"

text \<open>\<^verbatim>\<open>story.save()\<close> writes the document with the same \<^verbatim>\<open>_id\<close>.\<close>

definition saveStory :: "story \<Rightarrow> db \<Rightarrow> db" where
  "saveStory st d = d\<lparr>stories := replaceFirst (\<lambda>x. sid x = sid st) st (stories d)\<rparr>"

text \<open>A new \<^verbatim>\<open>ObjectId\<close>: an identifier that no story and no link of the store uses.\<close>

definition freshId :: "db \<Rightarrow> nat" where
  "freshId d = Suc (fold max (map sid (stories d) @ map storyId (storySources d)) 0)"

subsection \<open>Source model\<close>

definition KNOWN_SOURCE_SCORES :: "(string \<times> rat \<times> string) list" where
  "KNOWN_SOURCE_SCORES =
    [(''Reuters'', 95 / 100, ''wire''), (''Associated Press'', 95 / 100, ''wire''),
     (''AFP'', 90 / 100, ''wire''),
     (''BBC'', 90 / 100, ''public''), (''NPR'', 85 / 100, ''public''),
     (''PBS'', 85 / 100, ''public''),
     (''New York Times'', 85 / 100, ''newspaper''), (''Washington Post'', 85 / 100, ''newspaper''),
     (''Wall Street Journal'', 85 / 100, ''newspaper''), (''The Guardian'', 80 / 100, ''newspaper''),
     (''Los Angeles Times'', 80 / 100, ''newspaper''),
     (''CNN'', 70 / 100, ''cable''), (''Fox News'', 65 / 100, ''cable''),
     (''MSNBC'', 65 / 100, ''cable''),
     (''TechCrunch'', 75 / 100, ''tech''), (''The Verge'', 75 / 100, ''tech''),
     (''Wired'', 80 / 100, ''tech''), (''Ars Technica'', 80 / 100, ''tech''),
     (''Axios'', 80 / 100, ''digital''), (''Politico'', 75 / 100, ''digital''),
     (''The Hill'', 70 / 100, ''digital'')]"

text \<open>\<^verbatim>\<open>Source.getOrCreate\<close>. A name that is missing or empty matches no document and
  fails the \<^verbatim>\<open>required\<close> validator of \<^verbatim>\<open>create\<close>. (A name inherited from
  \<^verbatim>\<open>Object.prototype\<close> has no \<^verbatim>\<open>score\<close> or \<^verbatim>\<open>type\<close> and gets the defaults as
  well.)\<close>

definition getOrCreate :: "int \<Rightarrow> db \<Rightarrow> string option \<Rightarrow> db \<times> (error + source_doc)" where
  "getOrCreate now d srcName =
     (case find (\<lambda>s. Some (name s) = srcName) (sources d) of
        Some src \<Rightarrow>
          let src' = src\<lparr>lastSeenAt := now, totalArticles := totalArticles src + 1\<rparr>
          in (d\<lparr>sources := replaceFirst (\<lambda>s. name s = name src) src' (sources d)\<rparr>, Inr src')
      | None \<Rightarrow>
          (case srcName of
             None \<Rightarrow> (d, Inl ValidationError)
           | Some n \<Rightarrow>
               if n = [] then (d, Inl ValidationError)
               else
                 let knownData = map_of KNOWN_SOURCE_SCORES n;
                     src = \<lparr> name = n,
                             src_credibilityScore =
                               (case knownData of None \<Rightarrow> 1 / 2 | Some (sc, ty) \<Rightarrow> orNum sc (1 / 2)),
                             sourceType =
                               (case knownData of None \<Rightarrow> ''other'' | Some (sc, ty) \<Rightarrow> ty),
                             totalArticles = 0, lastSeenAt = now \<rparr>;
                     src' = src\<lparr>lastSeenAt := now, totalArticles := totalArticles src + 1\<rparr>
                 in (d\<lparr>sources := sources d @ [src']\<rparr>, Inr src')))"

subsection \<open>StorySource model\<close>

text \<open>\<^verbatim>\<open>StorySource.create\<close>: the schema's validators (required source name and url,
  both scores within [0,1]) and its unique index on \<open>(storyId, articleId)\<close>.\<close>

definition validStorySource :: "storySource \<Rightarrow> bool" where
  "validStorySource r =
     (sourceName r \<noteq> [] \<and> link_url r \<noteq> [] \<and>
      0 \<le> credibilityScore r \<and> credibilityScore r \<le> 1 \<and>
      0 \<le> similarityScore r \<and> similarityScore r \<le> 1)"

definition createStorySource :: "db \<Rightarrow> storySource \<Rightarrow> db \<times> (error + storySource)" where
  "createStorySource d r =
     (if \<not> validStorySource r then (d, Inl ValidationError)
      else if \<exists>x \<in> set (storySources d). storyId x = storyId r \<and> articleId x = articleId r
           then (d, Inl DuplicateKey)
      else (d\<lparr>storySources := storySources d @ [r]\<rparr>, Inr r))"

text \<open>The table of \<^verbatim>\<open>calculateSourceDiversity\<close>. The lookup \<^verbatim>\<open>sourceCategories[source]\<close>
  is a property read on an object literal: for a name that is not a key of the table but
  a member of \<^verbatim>\<open>Object.prototype\<close> it yields that (truthy) member, not \<^verbatim>\<open>undefined\<close>.\<close>

definition sourceCategories :: "(string \<times> string) list" where
  "sourceCategories =
    [(''Reuters'', ''wire''), (''AP'', ''wire''), (''AFP'', ''wire''),
     (''BBC'', ''public''), (''NPR'', ''public''), (''PBS'', ''public''),
     (''CNN'', ''cable''), (''Fox News'', ''cable''), (''MSNBC'', ''cable''),
     (''New York Times'', ''newspaper''), (''Washington Post'', ''newspaper''),
     (''Wall Street Journal'', ''newspaper''), (''The Guardian'', ''newspaper''),
     (''TechCrunch'', ''tech''), (''The Verge'', ''tech''), (''Wired'', ''tech'')]"

definition objectPrototypeMembers :: "string list" where
  "objectPrototypeMembers =
    [''constructor'', ''__proto__'', ''hasOwnProperty'', ''isPrototypeOf'',
     ''propertyIsEnumerable'', ''toLocaleString'', ''toString'', ''valueOf'',
     ''__defineGetter__'', ''__defineSetter__'', ''__lookupGetter__'', ''__lookupSetter__'']"

datatype category_value = Category string | Inherited string

definition categoryOf :: "string \<Rightarrow> category_value" where
  "categoryOf src =
     (case map_of sourceCategories src of
        Some c \<Rightarrow> Category c
      | None \<Rightarrow> if src \<in> set objectPrototypeMembers then Inherited src else Category ''other'')"

definition linksOf :: "db \<Rightarrow> nat \<Rightarrow> storySource list" where
  "linksOf d i = filter (\<lambda>r. storyId r = i) (storySources d)"

definition calculateSourceDiversity :: "db \<Rightarrow> nat \<Rightarrow> rat" where
  "calculateSourceDiversity d i =
     (let names = remdups (map sourceName (linksOf d i));
          categoriesRepresented = remdups (map categoryOf names);
          totalCategories = 6
      in min (of_nat (length categoriesRepresented) / totalCategories) 1)"

definition calculateAverageCredibility :: "db \<Rightarrow> nat \<Rightarrow> rat" where
  "calculateAverageCredibility d i =
     (let rows = linksOf d i
      in if length rows > 0 then sum_list (map credibilityScore rows) / of_nat (length rows)
         else 1 / 2)"

subsection \<open>Story model\<close>

text \<open>The validators of the Story schema on the fields the services write. They run when a
  story is created and when \<^verbatim>\<open>story.save()\<close> writes it back; a stored story has passed
  them, so on a save only the fields just modified can fail.\<close>

definition validStory :: "story \<Rightarrow> bool" where
  "validStory st =
     (canonicalTitle st \<noteq> [] \<and> length (canonicalTitle st) \<le> 500 \<and>
      length (summary st) \<le> 300 \<and> length (whyThisMatters st) \<le> 200 \<and>
      mood st \<in> set [''calm'', ''neutral'', ''serious''] \<and>
      category st \<in> set [''general'', ''business'', ''entertainment'', ''health'',
                          ''science'', ''sports'', ''technology''] \<and>
      0 \<le> sourceDiversity st \<and> sourceDiversity st \<le> 1 \<and>
      0 \<le> averageCredibility st \<and> averageCredibility st \<le> 1)"

text \<open>\<^verbatim>\<open>Story.recalculateImportance\<close>: \<^verbatim>\<open>null\<close> when the story is absent.\<close>

definition recalculateImportance :: "int \<Rightarrow> db \<Rightarrow> nat \<Rightarrow> db \<times> story option" where
  "recalculateImportance now d i =
     (case findById d i of
        None \<Rightarrow> (d, None)
      | Some st \<Rightarrow>
          let st' = st\<lparr>importanceScore := importanceOf now st\<rparr>
          in (saveStory st' d, Some st'))"

section \<open>Clustering engine (clusteringService)\<close>

definition SIMILARITY_THRESHOLD :: rat where
  "SIMILARITY_THRESHOLD = 65 / 100"

definition findMatchingStory :: "int \<Rightarrow> db \<Rightarrow> article \<Rightarrow> (story \<times> rat) option" where
  "findMatchingStory now d a =
     (let cutoff = now - 48 * 60 * 60 * 1000;
          recentStories = filter (\<lambda>st. cutoff \<le> firstSeen st \<and>
                                        category st = orElse (a_category a) ''general'') (stories d);
          (bestMatch, bestScore) =
             fold (\<lambda>st (bestMatch, bestScore).
                     let similarity = calculateTitleSimilarity (orEmpty (title a)) (canonicalTitle st)
                     in if similarity > SIMILARITY_THRESHOLD \<and> similarity > bestScore
                        then (Some st, similarity) else (bestMatch, bestScore))
                  recentStories (None, 0)
      in case bestMatch of None \<Rightarrow> None | Some st \<Rightarrow> Some (st, bestScore))"

definition createStoryFromArticle :: "int \<Rightarrow> db \<Rightarrow> article \<Rightarrow> db \<times> (error + story)" where
  "createStoryFromArticle now d a =
     (case getOrCreate now d (source a) of
        (d1, Inl e) \<Rightarrow> (d1, Inl e)
      | (d1, Inr src) \<Rightarrow>
          let st = \<lparr> sid = freshId d1,
                     canonicalTitle = orEmpty (title a),
                     summary = orEmpty (a_summary a),
                     whyThisMatters = orEmpty (a_whyThisMatters a),
                     mood = orElse (a_mood a) ''neutral'',
                     category = orElse (a_category a) ''general'',
                     sourceCount = 1,
                     sourceDiversity = 0,
                     averageCredibility = src_credibilityScore src,
                     importanceScore = src_credibilityScore src * (25 / 100),
                     firstSeen = (case publishedAt a of None \<Rightarrow> now | Some t \<Rightarrow> t),
                     lastUpdated = now \<rparr>
          in if \<not> validStory st then (d1, Inl ValidationError)
             else
               let d2 = d1\<lparr>stories := stories d1 @ [st]\<rparr>;
                   link = \<lparr> storyId = sid st, articleId = aid a,
                            sourceName = orEmpty (source a),
                            originalHeadline = title a,
                            link_url = orEmpty (url a),
                            link_publishedAt = (case publishedAt a of None \<Rightarrow> now | Some t \<Rightarrow> t),
                            credibilityScore = src_credibilityScore src,
                            isPrimary = True, similarityScore = 1 \<rparr>
               in case createStorySource d2 link of
                    (d3, Inl e) \<Rightarrow> (d3, Inl e)
                  | (d3, Inr r) \<Rightarrow> (d3, Inr st))"

text \<open>\<^verbatim>\<open>addArticleToStory\<close> returns the story document it loaded at its start in both of its
  normal exits; \<open>AlreadyLinked\<close> is the exit after the log line
  \<^verbatim>\<open>Source ... already in story, skipping\<close>, \<open>Linked\<close> the exit after the link was added.\<close>

datatype link_outcome = AlreadyLinked story | Linked story

definition addArticleToStory ::
  "int \<Rightarrow> db \<Rightarrow> nat \<Rightarrow> article \<Rightarrow> rat \<Rightarrow> db \<times> (error + link_outcome)" where
  "addArticleToStory now d i a score =
     (case findById d i of
        None \<Rightarrow> (d, Inl StoryNotFound)
      | Some st \<Rightarrow>
          (case getOrCreate now d (source a) of
             (d1, Inl e) \<Rightarrow> (d1, Inl e)
           | (d1, Inr src) \<Rightarrow>
               if \<exists>r \<in> set (storySources d1). storyId r = i \<and> Some (sourceName r) = source a
               then (d1, Inr (AlreadyLinked st))
               else
                 let link = \<lparr> storyId = i, articleId = aid a,
                              sourceName = orEmpty (source a),
                              originalHeadline = title a,
                              link_url = orEmpty (url a),
                              link_publishedAt = (case publishedAt a of None \<Rightarrow> now | Some t \<Rightarrow> t),
                              credibilityScore = src_credibilityScore src,
                              isPrimary = False, similarityScore = score \<rparr>
                 in case createStorySource d1 link of
                      (d2, Inl e) \<Rightarrow> (d2, Inl e)
                    | (d2, Inr r) \<Rightarrow>
                        let st1 = st\<lparr>sourceCount := sourceCount st + 1, lastUpdated := now\<rparr>;
                            st2 = st1\<lparr>sourceDiversity := calculateSourceDiversity d2 i\<rparr>;
                            st3 = st2\<lparr>averageCredibility := calculateAverageCredibility d2 i\<rparr>
                        in if \<not> validStory st3 then (d2, Inl ValidationError)
                           else
                             let d3 = saveStory st3 d2;
                                 (d4, r) = recalculateImportance now d3 i
                             in (d4, Inr (Linked st3))))"

record results =
  newStories :: nat
  mergedArticles :: nat
  skipped :: nat
  errors :: nat

text \<open>One iteration of the loop of \<^verbatim>\<open>clusterArticles\<close>, with its \<^verbatim>\<open>try\<close>/\<^verbatim>\<open>catch\<close>: the
  store it leaves and the counter it increments.\<close>

datatype outcome = NewStory | Merged | Skipped | Failed error

definition processArticle :: "int \<Rightarrow> db \<Rightarrow> article \<Rightarrow> db \<times> outcome" where
  "processArticle now d a =
     (if \<exists>r \<in> set (storySources d). articleId r = aid a then (d, Skipped)
      else case findMatchingStory now d a of
             Some (st, score) \<Rightarrow>
               (case addArticleToStory now d (sid st) a score of
                  (d', Inl e) \<Rightarrow> (d', Failed e)
                | (d', Inr r) \<Rightarrow> (d', Merged))
           | None \<Rightarrow>
               (case createStoryFromArticle now d a of
                  (d', Inl e) \<Rightarrow> (d', Failed e)
                | (d', Inr st) \<Rightarrow> (d', NewStory)))"

definition count :: "outcome \<Rightarrow> results \<Rightarrow> results" where
  "count out res =
     (case out of
        NewStory \<Rightarrow> res\<lparr>newStories := newStories res + 1\<rparr>
      | Merged \<Rightarrow> res\<lparr>mergedArticles := mergedArticles res + 1\<rparr>
      | Skipped \<Rightarrow> res\<lparr>skipped := skipped res + 1\<rparr>
      | Failed e \<Rightarrow> res\<lparr>errors := errors res + 1\<rparr>)"

text \<open>The loop over the batch. Every article comes with the instant at which the loop
  reaches it.\<close>

fun clusterLoop :: "(int \<times> article) list \<Rightarrow> db \<times> results \<Rightarrow> db \<times> results" where
  "clusterLoop [] (d, res) = (d, res)"
| "clusterLoop ((now, a) # rest) (d, res) =
     (case processArticle now d a of (d', out) \<Rightarrow> clusterLoop rest (d', count out res))"

definition clusterArticles :: "db \<Rightarrow> (int \<times> article) list \<Rightarrow> db \<times> results" where
  "clusterArticles d articles =
     clusterLoop articles (d, \<lparr> newStories = 0, mergedArticles = 0, skipped = 0, errors = 0 \<rparr>)"

section \<open>Ranked pages (calmRankingService and the Story model)\<close>


datatype jsnum = Num int | Infinity | NaN











section \<open>Context timeline (contextService)\<close>

definition timelineStopwords :: "string list" where
  "timelineStopwords =
    [''the'', ''a'', ''an'', ''and'', ''or'', ''but'', ''in'', ''on'', ''at'', ''to'', ''for'',
     ''of'', ''with'', ''by'', ''from'', ''as'', ''is'', ''was'', ''are'', ''were'', ''been'',
     ''have'', ''has'', ''had'', ''will'', ''would'', ''could'', ''should'', ''said'', ''says'']"

text \<open>\<^verbatim>\<open>text.toLowerCase().replace(/[^\w\s]/g, '').split(/\s+/).filter(...)\<close>\<close>

definition extractSignificantWords :: "string \<Rightarrow> string list" where
  "extractSignificantWords text =
     (if text = [] then []
      else filter (\<lambda>w. length w > 3 \<and> w \<notin> set timelineStopwords)
             (split_ws (filter (\<lambda>c. isWordChar c \<or> isSpace c) (toLowerCase text))))"

definition calculateRelevance :: "story \<Rightarrow> story \<Rightarrow> rat" where
  "calculateRelevance story1 story2 =
     (if category story1 \<noteq> category story2 then 0
      else let words1 = extractSignificantWords (canonicalTitle story1);
               words2 = extractSignificantWords (canonicalTitle story2);
               intersection = filter (\<lambda>w. w \<in> set words2) words1;
               union = remdups (words1 @ words2)
           in if length union = 0 then 0
              else of_nat (length intersection) / of_nat (length union))"

datatype relationship = PRECEDES | FOLLOWS | RELATED

definition determineRelationship :: "story \<Rightarrow> story \<Rightarrow> relationship" where
  "determineRelationship current related =
     (if firstSeen related < firstSeen current then PRECEDES
      else if firstSeen related > firstSeen current then FOLLOWS
      else RELATED)"

record timeline_entry =
  e_date :: int
  e_title :: string
  e_summary :: string
  e_storyId :: nat
  e_relevanceScore :: rat
  e_relationship :: relationship

record timeline_result =
  currentStory :: "nat \<times> string \<times> int"
  timeline :: "timeline_entry list"
  totalRelated :: nat

text \<open>The candidates of \<^verbatim>\<open>buildTimeline\<close>: the query with its sort and \<^verbatim>\<open>limit(10)\<close>.\<close>

definition inWindow :: "int \<Rightarrow> nat \<Rightarrow> story \<Rightarrow> int \<Rightarrow> story \<Rightarrow> bool" where
  "inWindow now i story days r =
     (sid r \<noteq> i \<and> category r = category story \<and>
      now - days * 24 * 60 * 60 * 1000 \<le> firstSeen r \<and> firstSeen r < firstSeen story)"

definition relatedStories :: "int \<Rightarrow> db \<Rightarrow> nat \<Rightarrow> story \<Rightarrow> int \<Rightarrow> story list" where
  "relatedStories now d i story days =
     take 10 (sort_key (\<lambda>r. - firstSeen r) (filter (inWindow now i story days) (stories d)))"

definition timelineEntry :: "story \<Rightarrow> story \<Rightarrow> timeline_entry" where
  "timelineEntry story related =
     \<lparr> e_date = firstSeen related,
       e_title = canonicalTitle related,
       e_summary = (if summary related \<noteq> [] then summary related
                    else ''Related '' @ category story @ '' story''),
       e_storyId = sid related,
       e_relevanceScore = calculateRelevance story related,
       e_relationship = determineRelationship story related \<rparr>"

text \<open>\<^verbatim>\<open>buildTimeline\<close>: \<^verbatim>\<open>null\<close> when the story is absent.\<close>

definition buildTimeline :: "int \<Rightarrow> db \<Rightarrow> nat \<Rightarrow> int \<Rightarrow> timeline_result option" where
  "buildTimeline now d i days =
     (case findById d i of
        None \<Rightarrow> None
      | Some story \<Rightarrow>
          let related = relatedStories now d i story days;
              timelineEntries = map (timelineEntry story)
                                  (filter (\<lambda>r. calculateRelevance story r > 3 / 10) related);
              byDate = sort_key (\<lambda>e. - e_date e) timelineEntries
          in Some \<lparr> currentStory = (sid story, canonicalTitle story, firstSeen story),
                    timeline = take 5 byDate,
                    totalRelated = length byDate \<rparr>)"

section \<open>Store invariant\<close>

text \<open>At most one link per story and source name.\<close>

definition uniqueSources :: "db \<Rightarrow> bool" where
  "uniqueSources d = distinct (map (\<lambda>r. (storyId r, sourceName r)) (storySources d))"

text \<open>The six categories of the diversity score.\<close>

definition sixCategories :: "string list" where
  "sixCategories = [''wire'', ''public'', ''cable'', ''newspaper'', ''tech'', ''other'']"

text \<open>Component-wise sum of two batch results.\<close>

definition addResults :: "results \<Rightarrow> results \<Rightarrow> results" where
  "addResults r1 r2 =
     \<lparr> newStories = newStories r1 + newStories r2,
       mergedArticles = mergedArticles r1 + mergedArticles r2,
       skipped = skipped r1 + skipped r2,
       errors = errors r1 + errors r2 \<rparr>"





section \<open>Sample data\<close>

definition article0 :: article where
  "article0 = \<lparr> aid = 0, title = None, description = None, content = None, url = None,
      source = None, publishedAt = None, a_category = None, a_summary = None,
      a_whyThisMatters = None, a_mood = None \<rparr>"




definition storm_reuters :: article where
  "storm_reuters = article0 \<lparr> aid := 4, title := Some ''Storm hits coast'',
      url := Some ''u4'', source := Some ''Reuters'', publishedAt := Some 0 \<rparr>"

definition storm_bbc :: article where
  "storm_bbc = article0 \<lparr> aid := 5, title := Some ''Storm hits coast'',
      url := Some ''u5'', source := Some ''BBC'', publishedAt := Some 0 \<rparr>"

definition emptyDb :: db where
  "emptyDb = \<lparr> stories = [], storySources = [], sources = [] \<rparr>"

text \<open>The store after \<open>storm_reuters\<close> has been clustered at instant 0, and after
  \<open>storm_bbc\<close> has then been added to its story.\<close>

definition storm_story :: story where
  "storm_story = \<lparr> sid = 1, canonicalTitle = ''Storm hits coast'', summary = [],
      whyThisMatters = [], mood = ''neutral'', category = ''general'', sourceCount = 1,
      sourceDiversity = 0, averageCredibility = 19 / 20, importanceScore = 19 / 80,
      firstSeen = 0, lastUpdated = 0 \<rparr>"

definition storm_link :: storySource where
  "storm_link = \<lparr> storyId = 1, articleId = 4, sourceName = ''Reuters'',
      originalHeadline = Some ''Storm hits coast'', link_url = ''u4'', link_publishedAt = 0,
      credibilityScore = 19 / 20, isPrimary = True, similarityScore = 1 \<rparr>"

definition reuters_doc :: source_doc where
  "reuters_doc = \<lparr> name = ''Reuters'', src_credibilityScore = 19 / 20, sourceType = ''wire'',
      totalArticles = 1, lastSeenAt = 0 \<rparr>"

definition stormDb :: db where
  "stormDb = \<lparr> stories = [storm_story], storySources = [storm_link], sources = [reuters_doc] \<rparr>"

definition storm_story2 :: story where
  "storm_story2 = storm_story \<lparr> sourceCount := 2, sourceDiversity := 1 / 3,
      averageCredibility := 37 / 40 \<rparr>"

definition stormDb2 :: db where
  "stormDb2 = \<lparr> stories = [storm_story2 \<lparr> importanceScore := importanceOf 0 storm_story2 \<rparr>],
      storySources = [storm_link,
        \<lparr> storyId = 1, articleId = 5, sourceName = ''BBC'',
          originalHeadline = Some ''Storm hits coast'', link_url = ''u5'', link_publishedAt = 0,
          credibilityScore = 9 / 10, isPrimary = False, similarityScore = 1 \<rparr>],
      sources = [reuters_doc,
        \<lparr> name = ''BBC'', src_credibilityScore = 9 / 10, sourceType = ''public'',
          totalArticles = 1, lastSeenAt = 0 \<rparr>] \<rparr>"

text \<open>A second Reuters article on the storm, and a malformed one without a url.\<close>

definition storm_reuters_again :: article where
  "storm_reuters_again = storm_reuters \<lparr> aid := 6, url := Some ''u6'' \<rparr>"

definition storm_no_url :: article where
  "storm_no_url = storm_reuters \<lparr> url := None \<rparr>"

definition story0 :: story where
  "story0 = \<lparr> sid = 0, canonicalTitle = ''Storm hits coast'', summary = [],
      whyThisMatters = [], mood = ''neutral'', category = ''general'', sourceCount = 10,
      sourceDiversity = 1, averageCredibility = 1, importanceScore = 0,
      firstSeen = 0, lastUpdated = 0 \<rparr>"

text \<open>A story whose exact weighted sum 0.5975 is a rounding tie.\<close>

definition tie_story :: story where
  "tie_story = story0 \<lparr> sourceCount := 2, sourceDiversity := 1 / 2,
      averageCredibility := 17 / 20 \<rparr>"







text \<open>A story first seen at instant 100 with eleven earlier stories of the same title and
  category (first seen at 1, ..., 11) and one of another category.\<close>

definition tlStory :: "nat \<Rightarrow> story" where
  "tlStory k = story0 \<lparr> sid := k, canonicalTitle := ''Storm'', firstSeen := int k \<rparr>"

definition tlDb :: db where
  "tlDb = \<lparr> stories = tlStory 100 # map tlStory [1 ..< 12] @
                        [(tlStory 50) \<lparr> category := ''business'' \<rparr>],
             storySources = [], sources = [] \<rparr>"

definition tlResult :: timeline_result where
  "tlResult = \<lparr> currentStory = (100, ''Storm'', 100),
      timeline = map (\<lambda>k. timelineEntry (tlStory 100) (tlStory k)) [11, 10, 9, 8, 7],
      totalRelated = 10 \<rparr>"

section \<open>Properties of the similarity engine\<close>



lemma calculateSimilarity_nonneg: "0 \<le> calculateSimilarity a b"
  by (simp add: calculateSimilarity_def Let_def)

lemma calculateSimilarity_le_1: "calculateSimilarity a b \<le> 1"
proof -
  have "length (filter (\<lambda>w. w \<in> set ys) (remdups xs))
          \<le> length (remdups (remdups xs @ remdups ys))" for xs ys :: "string list"
  proof -
    have "length (filter (\<lambda>w. w \<in> set ys) (remdups xs)) \<le> length (remdups xs)" by simp
    also have "\<dots> = card (set xs)" by (simp add: length_remdups_card_conv)
    also have "\<dots> \<le> card (set xs \<union> set ys)" by (simp add: card_mono)
    also have "\<dots> = length (remdups (remdups xs @ remdups ys))"
      by (simp add: length_remdups_card_conv)
    finally show ?thesis .
  qed
  then show ?thesis
    by (auto simp: calculateSimilarity_def Let_def divide_le_eq_1)
qed

lemma calculateTitleSimilarity_range:
  "0 \<le> calculateTitleSimilarity t1 t2 \<and> calculateTitleSimilarity t1 t2 \<le> 1"
  using calculateSimilarity_nonneg [of t1 t2]
  by (simp add: calculateTitleSimilarity_def Let_def min_def)




section \<open>Properties of binary64 rounding\<close>

lemma ilog2_bounds:
  assumes "0 < x"
  shows "power_int 2 (ilog2 x) \<le> x" and "x < power_int 2 (ilog2 x + 1)"
proof -
  obtain p q where pq: "quotient_of x = (p, q)" by (cases "quotient_of x")
  have q: "0 < q" using quotient_of_denom_pos [OF pq] .
  have x: "x = of_int p / of_int q" using quotient_of_div [OF pq] .
  have p: "0 < p" using assms q unfolding x by (simp add: zero_less_divide_iff)
  define bp where "bp = bitlen p"
  define bq where "bq = bitlen q"
  have bp1: "1 \<le> bp" and bq1: "1 \<le> bq"
    using p q by (simp_all add: bp_def bq_def bitlen_alt_def)
  have P: "power_int 2 (bp - 1) \<le> (of_int p :: rat)" "(of_int p :: rat) < power_int 2 bp"
    using bitlen_bounds [OF p] bp1 by (simp_all add: bp_def [symmetric] power_int_def)
  have Q: "power_int 2 (bq - 1) \<le> (of_int q :: rat)" "(of_int q :: rat) < power_int 2 bq"
    using bitlen_bounds [OF q] bq1 by (simp_all add: bq_def [symmetric] power_int_def)
  have "x < power_int 2 bp / power_int 2 (bq - 1)"
    unfolding x using p P(2) Q(1) by (intro frac_less) simp_all
  also have "\<dots> = power_int 2 (bp - bq + 1)"
    by (simp add: power_int_diff [symmetric] algebra_simps)
  finally have up: "x < power_int 2 (bp - bq + 1)" .
  have "power_int 2 (bp - 1 - bq) = power_int 2 (bp - 1) / (power_int 2 bq :: rat)"
    by (simp add: power_int_diff)
  also have "\<dots> < x"
    unfolding x using q P(1) Q(2) by (intro frac_less2) simp_all
  finally have lo: "power_int 2 (bp - bq - 1) < x" by (simp add: algebra_simps)
  have e: "ilog2 x = (if power_int 2 (bp - bq) \<le> x then bp - bq else bp - bq - 1)"
    by (simp add: ilog2_def pq bp_def bq_def)
  show "power_int 2 (ilog2 x) \<le> x" using lo by (simp add: e)
  show "x < power_int 2 (ilog2 x + 1)" using up by (simp add: e)
qed

lemma ilog2_mono:
  assumes "0 < x" and "x \<le> y"
  shows "ilog2 x \<le> ilog2 y"
proof (rule ccontr)
  assume "\<not> ilog2 x \<le> ilog2 y"
  then have "ilog2 y + 1 \<le> ilog2 x" by simp
  then have "power_int (2 :: rat) (ilog2 y + 1) \<le> power_int 2 (ilog2 x)"
    by (intro power_int_increasing) simp_all
  also have "\<dots> \<le> x" using assms(1) by (rule ilog2_bounds)
  also have "\<dots> \<le> y" by fact
  also have "\<dots> < power_int 2 (ilog2 y + 1)" using assms by (intro ilog2_bounds) simp
  finally show False by simp
qed

lemma roundHalfEven_cases: "roundHalfEven y = \<lfloor>y\<rfloor> \<or> roundHalfEven y = \<lfloor>y\<rfloor> + 1"
  by (simp add: roundHalfEven_def Let_def)

lemma roundHalfEven_err: "\<bar>of_int (roundHalfEven y) - y\<bar> \<le> 1 / 2"
proof -
  have b: "of_int \<lfloor>y\<rfloor> \<le> y" "y < of_int \<lfloor>y\<rfloor> + 1" by linarith+
  consider "roundHalfEven y = \<lfloor>y\<rfloor>" "y - of_int \<lfloor>y\<rfloor> \<le> 1 / 2"
    | "roundHalfEven y = \<lfloor>y\<rfloor> + 1" "1 / 2 \<le> y - of_int \<lfloor>y\<rfloor>"
    unfolding roundHalfEven_def Let_def
    by (cases "y - of_int \<lfloor>y\<rfloor> < 1 / 2"; cases "1 / 2 < y - of_int \<lfloor>y\<rfloor>";
        cases "even \<lfloor>y\<rfloor>") auto
  then show ?thesis
  proof cases
    case 1
    have "\<bar>of_int \<lfloor>y\<rfloor> - y\<bar> \<le> 1 / 2" using b 1(2) by linarith
    then show ?thesis by (simp only: 1(1))
  next
    case 2
    have "\<bar>of_int \<lfloor>y\<rfloor> + 1 - y\<bar> \<le> 1 / 2" using b 2(2) by linarith
    then show ?thesis by (simp only: 2(1) of_int_add of_int_1)
  qed
qed

lemma roundHalfEven_of_int [simp]: "roundHalfEven (of_int n) = n"
  by (simp add: roundHalfEven_def)

lemma roundHalfEven_mono:
  assumes "y \<le> z"
  shows "roundHalfEven y \<le> roundHalfEven z"
proof (cases "\<lfloor>y\<rfloor> = \<lfloor>z\<rfloor>")
  case True
  then show ?thesis using assms by (auto simp: roundHalfEven_def Let_def)
next
  case False
  with assms have "\<lfloor>y\<rfloor> + 1 \<le> \<lfloor>z\<rfloor>" using floor_mono [OF assms] by linarith
  with roundHalfEven_cases [of y] roundHalfEven_cases [of z] show ?thesis by auto
qed


lemma binary64_0 [simp]: "binary64 0 = 0"
  by (simp add: binary64_def)

lemma binary64_minus: "binary64 (- x) = - binary64 x"
  by (simp add: binary64_def Let_def sgn_minus)

text \<open>A positive number is rounded within its binade, to one of the two neighbours.\<close>

lemma binary64_pos:
  assumes "0 < x"
  shows "binary64 x = of_int (roundHalfEven (x / power_int 2 (ilog2 x - 52))) * power_int 2 (ilog2 x - 52)"
    and "4503599627370496 \<le> x / power_int 2 (ilog2 x - 52)"
    and "x / power_int 2 (ilog2 x - 52) < 9007199254740992"
    and "power_int 2 (ilog2 x) \<le> binary64 x"
    and "binary64 x \<le> power_int 2 (ilog2 x + 1)"
proof -
  define e where "e = ilog2 x"
  define u :: rat where "u = power_int 2 (e - 52)"
  have u: "0 < u" by (simp add: u_def)
  have pe: "power_int 2 e = 4503599627370496 * u"
    by (simp add: u_def power_int_diff)
  have pe1: "power_int 2 (e + 1) = 9007199254740992 * u"
    by (simp add: u_def power_int_diff power_int_add)
  show fl: "binary64 x = of_int (roundHalfEven (x / power_int 2 (ilog2 x - 52))) * power_int 2 (ilog2 x - 52)"
    using assms by (simp add: binary64_def Let_def)
  have lo: "4503599627370496 * u \<le> x" and hi: "x < 9007199254740992 * u"
    using ilog2_bounds [OF assms] unfolding e_def [symmetric] pe pe1 by simp_all
  show m1: "4503599627370496 \<le> x / power_int 2 (ilog2 x - 52)"
    using lo u unfolding e_def [symmetric] u_def [symmetric] by (simp add: le_divide_eq)
  show m2: "x / power_int 2 (ilog2 x - 52) < 9007199254740992"
    using hi u unfolding e_def [symmetric] u_def [symmetric] by (simp add: divide_less_eq)
  have "roundHalfEven (of_int 4503599627370496) \<le> roundHalfEven (x / u)"
    using m1 unfolding e_def [symmetric] u_def [symmetric] by (intro roundHalfEven_mono) simp
  then have n1: "4503599627370496 \<le> roundHalfEven (x / u)"
    using roundHalfEven_of_int [of 4503599627370496] by simp
  have "roundHalfEven (x / u) \<le> roundHalfEven (of_int 9007199254740992)"
    using m2 unfolding e_def [symmetric] u_def [symmetric] by (intro roundHalfEven_mono) simp
  then have n2: "roundHalfEven (x / u) \<le> 9007199254740992"
    using roundHalfEven_of_int [of 9007199254740992] by simp
  from n1 have "(4503599627370496 :: rat) \<le> of_int (roundHalfEven (x / u))"
    by (metis of_int_le_iff of_int_numeral)
  then have "4503599627370496 * u \<le> of_int (roundHalfEven (x / u)) * u"
    using u by (simp add: mult_right_mono)
  then show "power_int 2 (ilog2 x) \<le> binary64 x"
    unfolding fl e_def [symmetric] u_def [symmetric] pe .
  from n2 have "of_int (roundHalfEven (x / u)) \<le> (9007199254740992 :: rat)"
    by (metis of_int_le_iff of_int_numeral)
  then have "of_int (roundHalfEven (x / u)) * u \<le> 9007199254740992 * u"
    using u by (simp add: mult_right_mono)
  then show "binary64 x \<le> power_int 2 (ilog2 x + 1)"
    unfolding fl e_def [symmetric] u_def [symmetric] pe1 .
qed

lemma binary64_pos_gt: "0 < x \<Longrightarrow> 0 < binary64 x"
  using binary64_pos(4) [of x] zero_less_power_int [of "2 :: rat" "ilog2 x"] by linarith

lemma binary64_mono_pos:
  assumes "0 < x" and "x \<le> y"
  shows "binary64 x \<le> binary64 y"
proof -
  have y: "0 < y" using assms by simp
  have le: "ilog2 x \<le> ilog2 y" using assms by (rule ilog2_mono)
  show ?thesis
  proof (cases "ilog2 x = ilog2 y")
    case True
    define u :: rat where "u = power_int 2 (ilog2 y - 52)"
    have u: "0 < u" by (simp add: u_def)
    have "x / u \<le> y / u" using assms u by (simp add: divide_right_mono)
    then have "roundHalfEven (x / u) \<le> roundHalfEven (y / u)" by (rule roundHalfEven_mono)
    then have "(of_int (roundHalfEven (x / u)) :: rat) \<le> of_int (roundHalfEven (y / u))" by simp
    then have "of_int (roundHalfEven (x / u)) * u \<le> of_int (roundHalfEven (y / u)) * u"
      using u by (simp add: mult_right_mono)
    then show ?thesis
      unfolding binary64_pos(1) [OF assms(1)] binary64_pos(1) [OF y] True u_def .
  next
    case False
    with le have "ilog2 x + 1 \<le> ilog2 y" by simp
    then have "power_int (2 :: rat) (ilog2 x + 1) \<le> power_int 2 (ilog2 y)"
      by (intro power_int_increasing) simp_all
    with binary64_pos(5) [OF assms(1)] binary64_pos(4) [OF y] show ?thesis by linarith
  qed
qed

lemma binary64_mono:
  assumes "x \<le> y"
  shows "binary64 x \<le> binary64 y"
proof -
  consider "0 < x" | "x = 0" "y = 0" | "x = 0" "0 < y" | "x < 0" "0 \<le> y" | "x < 0" "y < 0"
    using assms by linarith
  then show ?thesis
  proof cases
    case 1
    then show ?thesis using assms by (rule binary64_mono_pos)
  next
    case 2
    then show ?thesis by simp
  next
    case 3
    then show ?thesis using binary64_pos_gt [of y] by simp
  next
    case 4
    then have "0 < binary64 (- x)" by (intro binary64_pos_gt) simp
    then have "binary64 x < 0" by (simp add: binary64_minus)
    moreover have "0 \<le> binary64 y"
      using 4 binary64_pos_gt [of y] by (cases "y = 0") (simp_all add: less_imp_le)
    ultimately show ?thesis by simp
  next
    case 5
    then have "binary64 (- y) \<le> binary64 (- x)"
      using assms by (intro binary64_mono_pos) simp_all
    then show ?thesis by (simp add: binary64_minus)
  qed
qed

lemma binary64_eq_0_iff [simp]: "binary64 x = 0 \<longleftrightarrow> x = 0"
proof
  assume z: "binary64 x = 0"
  show "x = 0"
  proof (rule ccontr)
    assume "x \<noteq> 0"
    then consider "0 < x" | "0 < - x" by linarith
    then show False
    proof cases
      case 1
      from binary64_pos_gt [OF this] z show False by simp
    next
      case 2
      from binary64_pos_gt [OF this] z show False by (simp add: binary64_minus)
    qed
  qed
qed simp

text \<open>The relative error of one rounding is at most \<open>2\<^sup>-\<^sup>5\<^sup>3\<close>.\<close>

lemma binary64_err_pos:
  assumes "0 < x"
  shows "\<bar>binary64 x - x\<bar> \<le> x / 9007199254740992"
proof -
  define u :: rat where "u = power_int 2 (ilog2 x - 52)"
  have u: "0 < u" by (simp add: u_def)
  have fl: "binary64 x = of_int (roundHalfEven (x / u)) * u"
    unfolding u_def by (rule binary64_pos(1) [OF assms])
  have "binary64 x - x = (of_int (roundHalfEven (x / u)) - x / u) * u"
    using u by (simp add: fl algebra_simps)
  then have "\<bar>binary64 x - x\<bar> = \<bar>of_int (roundHalfEven (x / u)) - x / u\<bar> * u"
    using u by (simp add: abs_mult)
  also have "\<dots> \<le> 1 / 2 * u"
    using roundHalfEven_err [of "x / u"] u by (intro mult_right_mono) simp_all
  also have "\<dots> \<le> x / 9007199254740992"
    using binary64_pos(2) [OF assms] u unfolding u_def [symmetric]
    by (simp add: le_divide_eq)
  finally show ?thesis .
qed

lemma binary64_err: "\<bar>binary64 x - x\<bar> \<le> \<bar>x\<bar> / 9007199254740992"
proof -
  consider "0 < x" | "x = 0" | "0 < - x" by linarith
  then show ?thesis
  proof cases
    case 1
    from binary64_err_pos [OF this] 1 show ?thesis by simp
  next
    case 2
    then show ?thesis by simp
  next
    case 3
    have "\<bar>binary64 x - x\<bar> = \<bar>binary64 (- x) - (- x)\<bar>"
      unfolding binary64_minus by linarith
    also have "\<dots> \<le> (- x) / 9007199254740992" by (rule binary64_err_pos [OF 3])
    also have "\<dots> = \<bar>x\<bar> / 9007199254740992" using 3 by simp
    finally show ?thesis .
  qed
qed


subsection \<open>Evaluation on numerals\<close>

lemma ilog2_unique:
  assumes "power_int 2 k \<le> x" and "x < power_int 2 (k + 1)"
  shows "ilog2 x = k"
proof -
  have pos: "0 < x"
    using assms(1) zero_less_power_int [of "2 :: rat" k] by linarith
  note b = ilog2_bounds [OF pos]
  have "\<not> k + 1 \<le> ilog2 x"
  proof
    assume "k + 1 \<le> ilog2 x"
    then have "power_int (2 :: rat) (k + 1) \<le> power_int 2 (ilog2 x)"
      by (intro power_int_increasing) simp_all
    with b(1) assms(2) show False by linarith
  qed
  moreover have "\<not> ilog2 x + 1 \<le> k"
  proof
    assume "ilog2 x + 1 \<le> k"
    then have "power_int (2 :: rat) (ilog2 x + 1) \<le> power_int 2 k"
      by (intro power_int_increasing) simp_all
    with b(2) assms(1) show False by linarith
  qed
  ultimately show ?thesis by linarith
qed

lemma bitlen_rat_bounds:
  assumes "0 < a"
  shows "power_int 2 (bitlen a - 1) \<le> (of_int a :: rat)"
    and "(of_int a :: rat) < power_int 2 (bitlen a)"
proof -
  have ge: "1 \<le> bitlen a" using assms by (auto simp: bitlen_alt_def)
  from bitlen_bounds [OF assms]
  have lo: "2 ^ nat (bitlen a - 1) \<le> a" and hi: "a < 2 ^ nat (bitlen a)" by simp_all
  have "(of_int (2 ^ nat (bitlen a - 1)) :: rat) \<le> of_int a"
    using lo by (simp only: of_int_le_iff)
  then show "power_int 2 (bitlen a - 1) \<le> (of_int a :: rat)"
    using ge by (simp add: power_int_def)
  have "(of_int a :: rat) < of_int (2 ^ nat (bitlen a))"
    using hi by (simp only: of_int_less_iff)
  then show "(of_int a :: rat) < power_int 2 (bitlen a)"
    using ge by (simp add: power_int_def)
qed

lemma ilog2_divide:
  assumes "0 < a" and "0 < b"
  shows "ilog2 (of_int a / of_int b) =
     (if power_int 2 (bitlen a - bitlen b) \<le> (of_int a / of_int b :: rat)
      then bitlen a - bitlen b else bitlen a - bitlen b - 1)"
proof -
  define x :: rat where "x = of_int a / of_int b"
  define k where "k = bitlen a - bitlen b"
  have a: "0 < (of_int a :: rat)" and b: "0 < (of_int b :: rat)" using assms by simp_all
  note ba = bitlen_rat_bounds [OF assms(1)] and bb = bitlen_rat_bounds [OF assms(2)]
  have "x < power_int 2 (bitlen a) / power_int 2 (bitlen b - 1)"
    unfolding x_def using ba(2) bb(1) a b
    by (intro frac_less) simp_all
  also have "\<dots> = power_int 2 (bitlen a - (bitlen b - 1))"
    by (rule power_int_diff [symmetric]) simp
  also have "bitlen a - (bitlen b - 1) = k + 1" by (simp add: k_def)
  finally have hi: "x < power_int 2 (k + 1)" .
  have "power_int 2 (k - 1) = (power_int 2 (bitlen a - 1 - bitlen b) :: rat)"
    by (simp add: k_def algebra_simps)
  also have "\<dots> = power_int 2 (bitlen a - 1) / power_int 2 (bitlen b)"
    by (rule power_int_diff) simp
  also have "\<dots> < x"
    unfolding x_def using ba(1) bb(2) a b
    by (intro frac_less2) simp_all
  finally have lo: "power_int 2 (k - 1) < x" .
  show ?thesis
  proof (cases "power_int 2 k \<le> x")
    case True
    then have "ilog2 x = k" using hi by (rule ilog2_unique)
    with True show ?thesis unfolding x_def k_def by simp
  next
    case False
    have "ilog2 x = k - 1"
      using lo False by (intro ilog2_unique) simp_all
    with False show ?thesis unfolding x_def k_def by simp
  qed
qed

lemma bitlen_numeral:
  "bitlen 1 = 1"
  "bitlen (numeral Num.One) = 1"
  "bitlen (numeral (Num.Bit0 n)) = bitlen (numeral n) + 1"
  "bitlen (numeral (Num.Bit1 n)) = bitlen (numeral n) + 1"
proof -
  show "bitlen 1 = 1" by (subst compute_bitlen) simp
  then show "bitlen (numeral Num.One) = 1" by simp
  show "bitlen (numeral (Num.Bit0 n)) = bitlen (numeral n) + 1"
    by (subst compute_bitlen) simp
  show "bitlen (numeral (Num.Bit1 n)) = bitlen (numeral n) + 1"
    by (subst compute_bitlen) simp
qed

lemma ilog2_of_int:
  assumes "0 < a"
  shows "ilog2 (of_int a) = bitlen a - 1"
  using bitlen_rat_bounds [OF assms] by (intro ilog2_unique) simp_all

lemma ilog2_numeral:
  "ilog2 (numeral a / numeral b) =
     (if power_int 2 (bitlen (numeral a) - bitlen (numeral b)) \<le> (numeral a / numeral b :: rat)
      then bitlen (numeral a) - bitlen (numeral b)
      else bitlen (numeral a) - bitlen (numeral b) - 1)"
  "ilog2 (1 / numeral b) =
     (if power_int 2 (1 - bitlen (numeral b)) \<le> (1 / numeral b :: rat)
      then 1 - bitlen (numeral b) else - bitlen (numeral b))"
  "ilog2 (numeral a) = bitlen (numeral a) - 1"
  "ilog2 1 = 0"
proof -
  show "ilog2 (numeral a / numeral b) =
     (if power_int 2 (bitlen (numeral a) - bitlen (numeral b)) \<le> (numeral a / numeral b :: rat)
      then bitlen (numeral a) - bitlen (numeral b)
      else bitlen (numeral a) - bitlen (numeral b) - 1)"
    using ilog2_divide [of "numeral a" "numeral b"] by simp
  show "ilog2 (1 / numeral b) =
     (if power_int 2 (1 - bitlen (numeral b)) \<le> (1 / numeral b :: rat)
      then 1 - bitlen (numeral b) else - bitlen (numeral b))"
    using ilog2_divide [of 1 "numeral b"] by (simp add: bitlen_numeral)
  show "ilog2 (numeral a) = bitlen (numeral a) - 1"
    using ilog2_of_int [of "numeral a"] by simp
  show "ilog2 1 = 0"
    using ilog2_of_int [of 1] by (simp add: bitlen_numeral)
qed

lemma binary64_pos_eval:
  "0 < x \<Longrightarrow> binary64 x =
     of_int (roundHalfEven (x / power_int 2 (ilog2 x - 52))) * power_int 2 (ilog2 x - 52)"
  by (rule binary64_pos(1))

lemma binary64_numeral:
  "binary64 (numeral a / numeral b) =
     of_int (roundHalfEven (numeral a / numeral b / power_int 2 (ilog2 (numeral a / numeral b) - 52))) *
       power_int 2 (ilog2 (numeral a / numeral b) - 52)"
  "binary64 (1 / numeral b) =
     of_int (roundHalfEven (1 / numeral b / power_int 2 (ilog2 (1 / numeral b) - 52))) *
       power_int 2 (ilog2 (1 / numeral b) - 52)"
  "binary64 (numeral a) =
     of_int (roundHalfEven (numeral a / power_int 2 (ilog2 (numeral a) - 52))) *
       power_int 2 (ilog2 (numeral a) - 52)"
  by (rule binary64_pos_eval, simp)+

lemma binary64_1 [simp]: "binary64 1 = 1"
  by (simp add: binary64_pos_eval roundHalfEven_def ilog2_numeral bitlen_numeral)

lemma floor_rat_numeral:
  "\<lfloor>numeral a / numeral b :: rat\<rfloor> = numeral a div numeral b"
  "\<lfloor>1 / numeral b :: rat\<rfloor> = 1 div numeral b"
  using floor_divide_of_int_eq [of "numeral a" "numeral b", where ?'a = rat]
    floor_divide_of_int_eq [of 1 "numeral b", where ?'a = rat]
  by simp_all

text \<open>The rules that evaluate the binary64 operations on numerals.\<close>

lemmas binary64_eval =
  fadd_def fsub_def fmul_def fdiv_def binary64_numeral binary64_minus ilog2_numeral
  bitlen_numeral floor_rat_numeral roundHalfEven_def Let_def

section \<open>Properties of the importance score\<close>

lemmas score_eval =
  calculateImportanceScore_def importanceOf_def spec_score_float_def spec_score_sum_def
  spec_round3_def recencyScore_def ageHours_def orNum_def Math_round_def
  SOURCE_COUNT_def SOURCE_DIVERSITY_def CREDIBILITY_def RECENCY_def MAX_RECENCY_HOURS_def

lemma binary64_nonneg: "0 \<le> x \<Longrightarrow> 0 \<le> binary64 x"
  using binary64_mono [of 0 x] by simp

lemma binary64_le_1: "x \<le> 1 \<Longrightarrow> binary64 x \<le> 1"
  using binary64_mono [of x 1] by simp

lemma fadd_mono: "a \<le> a' \<Longrightarrow> b \<le> b' \<Longrightarrow> fadd a b \<le> fadd a' b'"
  unfolding fadd_def by (intro binary64_mono) simp

lemma fadd_nonneg: "0 \<le> a \<Longrightarrow> 0 \<le> b \<Longrightarrow> 0 \<le> fadd a b"
  unfolding fadd_def by (intro binary64_nonneg) simp

lemma fmul_unit:
  assumes "0 \<le> x" and "x \<le> 1" and "0 \<le> w"
  shows "0 \<le> fmul x w" and "fmul x w \<le> binary64 w"
proof -
  show "0 \<le> fmul x w" unfolding fmul_def using assms by (intro binary64_nonneg) simp
  have "x * w \<le> 1 * w" using assms by (intro mult_right_mono) simp_all
  then show "fmul x w \<le> binary64 w" unfolding fmul_def by (intro binary64_mono) simp
qed

lemma fmul_commute: "fmul x y = fmul y x"
  by (simp add: fmul_def mult.commute)

lemma ageHours_nonneg: "firstSeen st \<le> now \<Longrightarrow> 0 \<le> ageHours now st"
  unfolding ageHours_def fdiv_def
  by (intro binary64_nonneg divide_nonneg_nonneg) simp_all

lemma recencyScore_nonneg: "0 \<le> recencyScore now st"
  by (simp add: recencyScore_def)

lemma recencyScore_le_1:
  assumes "firstSeen st \<le> now"
  shows "recencyScore now st \<le> 1"
proof -
  have "0 \<le> fdiv (ageHours now st) MAX_RECENCY_HOURS"
    unfolding fdiv_def MAX_RECENCY_HOURS_def
    using ageHours_nonneg [OF assms] by (intro binary64_nonneg) simp
  then have "fsub 1 (fdiv (ageHours now st) MAX_RECENCY_HOURS) \<le> 1"
    unfolding fsub_def by (intro binary64_le_1) simp
  then show ?thesis by (simp add: recencyScore_def)
qed

lemma recencyScore_old:
  assumes "24 * 60 * 60 * 1000 \<le> now - firstSeen st"
  shows "recencyScore now st = 0"
proof -
  have "(86400000 :: int) \<le> now - firstSeen st" using assms by simp
  then have "(of_int 86400000 :: rat) \<le> of_int (now - firstSeen st)"
    by (simp only: of_int_le_iff)
  then have "binary64 86400000 \<le> binary64 (of_int (now - firstSeen st))"
    by (intro binary64_mono) simp
  then have d: "86400000 \<le> binary64 (of_int (now - firstSeen st))"
    by (simp add: binary64_eval)
  have "binary64 24 \<le> ageHours now st"
    unfolding ageHours_def fdiv_def using d by (intro binary64_mono) simp
  then have a: "24 \<le> ageHours now st" by (simp add: binary64_eval)
  have "binary64 1 \<le> fdiv (ageHours now st) MAX_RECENCY_HOURS"
    unfolding fdiv_def MAX_RECENCY_HOURS_def using a by (intro binary64_mono) simp
  then have "1 - fdiv (ageHours now st) MAX_RECENCY_HOURS \<le> 0" by simp
  then have "fsub 1 (fdiv (ageHours now st) MAX_RECENCY_HOURS) \<le> binary64 0"
    unfolding fsub_def by (rule binary64_mono)
  then show ?thesis by (simp add: recencyScore_def)
qed

text \<open>The weighted sum of four terms in the unit interval, in binary64, is in the unit
  interval: the four weights add up to exactly 1 in binary64.\<close>

lemma weights_sum_1:
  "fadd (fadd (fadd (binary64 SOURCE_COUNT) (binary64 SOURCE_DIVERSITY)) (binary64 CREDIBILITY))
        (binary64 RECENCY) = 1"
  by (simp add: score_eval binary64_eval)

lemma weights_nonneg:
  "0 \<le> SOURCE_COUNT" "0 \<le> SOURCE_DIVERSITY" "0 \<le> CREDIBILITY" "0 \<le> RECENCY"
  unfolding SOURCE_COUNT_def SOURCE_DIVERSITY_def CREDIBILITY_def RECENCY_def
  by (intro binary64_nonneg, simp)+

lemma weighted_sum_range:
  assumes "0 \<le> a" "a \<le> 1" "0 \<le> b" "b \<le> 1" "0 \<le> c" "c \<le> 1" "0 \<le> r" "r \<le> 1"
  shows "0 \<le> fadd (fadd (fadd (fmul a SOURCE_COUNT) (fmul b SOURCE_DIVERSITY))
                          (fmul c CREDIBILITY)) (fmul r RECENCY)"
    and "fadd (fadd (fadd (fmul a SOURCE_COUNT) (fmul b SOURCE_DIVERSITY))
                    (fmul c CREDIBILITY)) (fmul r RECENCY) \<le> 1"
proof -
  note pa = fmul_unit [OF assms(1,2) weights_nonneg(1)]
  note pb = fmul_unit [OF assms(3,4) weights_nonneg(2)]
  note pc = fmul_unit [OF assms(5,6) weights_nonneg(3)]
  note pr = fmul_unit [OF assms(7,8) weights_nonneg(4)]
  show "0 \<le> fadd (fadd (fadd (fmul a SOURCE_COUNT) (fmul b SOURCE_DIVERSITY))
                          (fmul c CREDIBILITY)) (fmul r RECENCY)"
    by (intro fadd_nonneg pa(1) pb(1) pc(1) pr(1))
  have "fadd (fadd (fadd (fmul a SOURCE_COUNT) (fmul b SOURCE_DIVERSITY))
                    (fmul c CREDIBILITY)) (fmul r RECENCY) \<le>
        fadd (fadd (fadd (binary64 SOURCE_COUNT) (binary64 SOURCE_DIVERSITY))
                    (binary64 CREDIBILITY)) (binary64 RECENCY)"
    by (intro fadd_mono pa(2) pb(2) pc(2) pr(2))
  then show "fadd (fadd (fadd (fmul a SOURCE_COUNT) (fmul b SOURCE_DIVERSITY))
                    (fmul c CREDIBILITY)) (fmul r RECENCY) \<le> 1"
    by (simp only: weights_sum_1)
qed

lemma round3_unit_range:
  assumes "0 \<le> s" and "s \<le> 1"
  shows "0 \<le> fdiv (of_int (Math_round (fmul s 1000))) 1000"
    and "fdiv (of_int (Math_round (fmul s 1000))) 1000 \<le> 1"
proof -
  have "0 \<le> fmul s 1000" unfolding fmul_def using assms by (intro binary64_nonneg) simp
  then have lo: "0 \<le> Math_round (fmul s 1000)"
    unfolding Math_round_def by (simp add: zero_le_floor)
  have "fmul s 1000 \<le> binary64 1000"
    unfolding fmul_def using assms by (intro binary64_mono) simp
  then have "fmul s 1000 \<le> 1000" by (simp add: binary64_eval)
  then have "fmul s 1000 + 1 / 2 < of_int 1000 + 1" by simp
  then have hi: "Math_round (fmul s 1000) \<le> 1000"
    unfolding Math_round_def by (simp only: floor_le_iff)
  from lo show "0 \<le> fdiv (of_int (Math_round (fmul s 1000))) 1000"
    unfolding fdiv_def by (intro binary64_nonneg) simp
  from hi have "(of_int (Math_round (fmul s 1000)) :: rat) \<le> of_int 1000"
    by (simp only: of_int_le_iff)
  then show "fdiv (of_int (Math_round (fmul s 1000))) 1000 \<le> 1"
    unfolding fdiv_def by (intro binary64_le_1) simp
qed

lemma calculateImportanceScore_unit_range:
  assumes "0 \<le> sourceDiversity st" "sourceDiversity st \<le> 1"
    and "0 \<le> averageCredibility st" "averageCredibility st \<le> 1"
    and "firstSeen st \<le> now"
  shows "0 \<le> calculateImportanceScore now st" and "calculateImportanceScore now st \<le> 1"
proof -
  let ?a = "min (fdiv (of_nat (sourceCount st)) 10) 1"
  let ?b = "orNum (binary64 (sourceDiversity st)) 0"
  let ?c = "orNum (binary64 (averageCredibility st)) (1 / 2)"
  let ?r = "recencyScore now st"
  have "0 \<le> fdiv (of_nat (sourceCount st)) 10"
    unfolding fdiv_def by (intro binary64_nonneg) simp
  then have a: "0 \<le> ?a" "?a \<le> 1" by simp_all
  have b: "0 \<le> ?b" "?b \<le> 1"
    using assms(1,2) by (simp_all add: orNum_def binary64_nonneg binary64_le_1)
  have c: "0 \<le> ?c" "?c \<le> 1"
    using assms(3,4) by (simp_all add: orNum_def binary64_nonneg binary64_le_1)
  have r: "0 \<le> ?r" "?r \<le> 1"
    using assms(5) by (simp_all add: recencyScore_nonneg recencyScore_le_1)
  note s = weighted_sum_range [OF a b c r]
  show "0 \<le> calculateImportanceScore now st"
    unfolding calculateImportanceScore_def Let_def by (rule round3_unit_range(1) [OF s])
  show "calculateImportanceScore now st \<le> 1"
    unfolding calculateImportanceScore_def Let_def by (rule round3_unit_range(2) [OF s])
qed

lemma calculateImportanceScore_spec_float:
  assumes "averageCredibility st \<noteq> 0"
  shows "calculateImportanceScore now st =
     fdiv (of_int (Math_round (fmul (spec_score_float now st) 1000))) 1000"
proof -
  have "orNum (binary64 (averageCredibility st)) (1 / 2) = binary64 (averageCredibility st)"
    using assms by (simp add: orNum_def)
  moreover have "orNum (binary64 (sourceDiversity st)) 0 = binary64 (sourceDiversity st)"
    by (simp add: orNum_def)
  ultimately show ?thesis
    unfolding calculateImportanceScore_def spec_score_float_def Let_def recencyScore_def
      ageHours_def SOURCE_COUNT_def SOURCE_DIVERSITY_def CREDIBILITY_def RECENCY_def
      MAX_RECENCY_HOURS_def
    by (simp only: fmul_commute [of "binary64 (30 / 100)"] fmul_commute [of "binary64 (25 / 100)"]
        fmul_commute [of "binary64 (20 / 100)"])
qed

text \<open>The error of the binary64 evaluation against the exact weighted sum.\<close>

lemma eps64_pos: "0 < eps64" "eps64 \<le> 1"
  by (simp_all add: eps64_def)

lemma binary64_abs_err:
  assumes "\<bar>x\<bar> \<le> B"
  shows "\<bar>binary64 x - x\<bar> \<le> B * eps64"
proof -
  have "\<bar>binary64 x - x\<bar> \<le> \<bar>x\<bar> * eps64"
    using binary64_err [of x] by (simp add: eps64_def)
  also have "\<dots> \<le> B * eps64"
    using assms eps64_pos(1) by (intro mult_right_mono) simp_all
  finally show ?thesis .
qed

lemma binary64_min: "binary64 (min x y) = min (binary64 x) (binary64 y)"
  by (rule min_of_mono [symmetric]) (simp add: mono_def binary64_mono)

lemma binary64_unit:
  assumes "0 \<le> x" and "x \<le> 1"
  shows "\<bar>binary64 x - x\<bar> \<le> eps64" and "0 \<le> binary64 x" and "binary64 x \<le> 1"
  using binary64_abs_err [of x 1] binary64_nonneg [of x] binary64_le_1 [of x] assms
  by simp_all

lemma fmul_weight_err:
  assumes x: "0 \<le> x" "x \<le> 1" and x0: "\<bar>x - x0\<bar> \<le> 4 * eps64"
    and W: "0 \<le> W" "W \<le> 1"
  shows "\<bar>fmul x (binary64 W) - x0 * W\<bar> \<le> 7 * W * eps64"
proof -
  define w where "w = binary64 W"
  have w: "\<bar>w - W\<bar> \<le> W * eps64"
    unfolding w_def using binary64_abs_err [of W W] W by simp
  have w0: "0 \<le> w" unfolding w_def using W by (intro binary64_nonneg)
  have "W * eps64 \<le> W * 1" using W eps64_pos by (intro mult_left_mono) simp_all
  with w have w2: "w \<le> 2 * W" by linarith
  have "\<bar>x * (w - W)\<bar> = x * \<bar>w - W\<bar>" using x by (simp add: abs_mult)
  also have "\<dots> \<le> 1 * (W * eps64)"
    using x w by (intro mult_mono) simp_all
  finally have e1: "\<bar>x * (w - W)\<bar> \<le> W * eps64" by simp
  have "\<bar>W * (x - x0)\<bar> = W * \<bar>x - x0\<bar>" using W by (simp add: abs_mult)
  also have "\<dots> \<le> W * (4 * eps64)"
    using W x0 by (intro mult_left_mono) simp_all
  finally have e2: "\<bar>W * (x - x0)\<bar> \<le> 4 * W * eps64" by simp
  have "x * w \<le> 1 * w" using x w0 by (intro mult_right_mono) simp_all
  then have "\<bar>x * w\<bar> \<le> 2 * W" using x w0 w2 by simp
  then have e3: "\<bar>binary64 (x * w) - x * w\<bar> \<le> 2 * W * eps64"
    by (rule binary64_abs_err)
  have "fmul x (binary64 W) - x0 * W =
        (binary64 (x * w) - x * w) + x * (w - W) + W * (x - x0)"
    by (simp add: fmul_def w_def algebra_simps)
  with e1 e2 e3 show ?thesis by linarith
qed

lemma fadd_err:
  assumes "0 \<le> a" "0 \<le> b" "a + b \<le> 2"
  shows "\<bar>fadd a b - (a + b)\<bar> \<le> 2 * eps64"
  unfolding fadd_def using assms by (intro binary64_abs_err) simp


lemma recencyScore_err:
  assumes "firstSeen st \<le> now"
  shows "\<bar>recencyScore now st -
          max 0 (1 - of_int (now - firstSeen st) / (1000 * 60 * 60) / 24)\<bar> \<le> 4 * eps64"
proof (cases "86400000 \<le> now - firstSeen st")
  case True
  then have "recencyScore now st = 0" by (intro recencyScore_old) simp
  moreover have "(of_int 86400000 :: rat) \<le> of_int (now - firstSeen st)"
    using True by (simp only: of_int_le_iff)
  then have "max 0 (1 - of_int (now - firstSeen st) / (1000 * 60 * 60) / 24) = (0 :: rat)"
    by simp
  ultimately show ?thesis using eps64_pos by simp
next
  case False
  define x0 :: rat where "x0 = of_int (now - firstSeen st)"
  define x1 where "x1 = binary64 x0"
  define a1 where "a1 = binary64 (x1 / 3600000)"
  define q1 where "q1 = binary64 (a1 / 24)"
  define t1 where "t1 = binary64 (1 - q1)"
  have "0 \<le> now - firstSeen st" "now - firstSeen st \<le> 86400000"
    using assms False by simp_all
  then have "(of_int 0 :: rat) \<le> of_int (now - firstSeen st)"
    "(of_int (now - firstSeen st) :: rat) \<le> of_int 86400000"
    by (simp_all only: of_int_le_iff)
  then have x0: "0 \<le> x0" "x0 \<le> 86400000" by (simp_all add: x0_def)
  have ex: "\<bar>x1 - x0\<bar> \<le> 86400000 * eps64"
    unfolding x1_def using x0 by (intro binary64_abs_err) simp
  have "binary64 x0 \<le> binary64 86400000" using x0 by (intro binary64_mono)
  then have x1: "0 \<le> x1" "x1 \<le> 86400000"
    using x0 by (simp_all add: x1_def binary64_nonneg binary64_eval)
  have ea: "\<bar>a1 - x1 / 3600000\<bar> \<le> 24 * eps64"
    unfolding a1_def using x1 by (intro binary64_abs_err) simp
  have "binary64 (x1 / 3600000) \<le> binary64 24" using x1 by (intro binary64_mono) simp
  then have a1: "0 \<le> a1" "a1 \<le> 24"
    using x1 by (simp_all add: a1_def binary64_nonneg binary64_eval)
  have eq: "\<bar>q1 - a1 / 24\<bar> \<le> 1 * eps64"
    unfolding q1_def using a1 by (intro binary64_abs_err) simp
  have q1: "0 \<le> q1" "q1 \<le> 1"
    unfolding q1_def using a1 by (simp_all add: binary64_nonneg binary64_le_1)
  have et: "\<bar>t1 - (1 - q1)\<bar> \<le> 1 * eps64"
    unfolding t1_def using q1 by (intro binary64_abs_err) simp
  have t1: "0 \<le> t1" unfolding t1_def using q1 by (intro binary64_nonneg) simp
  have r: "recencyScore now st = t1"
    using t1
    by (simp add: recencyScore_def ageHours_def MAX_RECENCY_HOURS_def fdiv_def fsub_def
        t1_def q1_def a1_def x1_def x0_def)
  have r0: "max 0 (1 - of_int (now - firstSeen st) / (1000 * 60 * 60) / 24) = 1 - x0 / 3600000 / 24"
    using x0 by (simp add: x0_def)
  have "\<bar>t1 - (1 - x0 / 3600000 / 24)\<bar> \<le> 4 * eps64"
    using ex ea eq et by (simp add: abs_le_iff field_simps)
  then show ?thesis by (simp only: r r0)
qed

lemma weights_le_half:
  "binary64 SOURCE_COUNT \<le> 1 / 2" "binary64 SOURCE_DIVERSITY \<le> 1 / 2"
  "binary64 CREDIBILITY \<le> 1 / 2" "binary64 RECENCY \<le> 1 / 2"
  by (simp_all add: score_eval binary64_eval)

lemma Math_round_err: "\<bar>of_int (Math_round y) - y\<bar> \<le> 1 / 2"
  unfolding Math_round_def by linarith

text \<open>The score is a thousandth \<open>n / 1000\<close> (as a binary64 number) whose \<open>n\<close> is a nearest
  integer of 1000 times the exact weighted sum, up to \<open>10\<^sup>-\<^sup>1\<^sup>1\<close>.\<close>

lemma calculateImportanceScore_close:
  assumes D: "0 \<le> sourceDiversity st" "sourceDiversity st \<le> 1"
    and C: "0 \<le> averageCredibility st" "averageCredibility st \<le> 1"
    and C0: "averageCredibility st \<noteq> 0"
    and F: "firstSeen st \<le> now"
  shows "\<exists>n. calculateImportanceScore now st = fdiv (of_int n) 1000 \<and>
             \<bar>of_int n - spec_score_sum now st * 1000\<bar> \<le> 1 / 2 + 1 / 100000000000"
proof -
  define s0 :: rat where "s0 = min (of_nat (sourceCount st) / 10) 1"
  define r0 :: rat where "r0 = max 0 (1 - of_int (now - firstSeen st) / (1000 * 60 * 60) / 24)"
  define s where "s = min (fdiv (of_nat (sourceCount st)) 10) 1"
  define d where "d = binary64 (sourceDiversity st)"
  define c where "c = binary64 (averageCredibility st)"
  define r where "r = recencyScore now st"
  define p1 where "p1 = fmul s SOURCE_COUNT"
  define p2 where "p2 = fmul d SOURCE_DIVERSITY"
  define p3 where "p3 = fmul c CREDIBILITY"
  define p4 where "p4 = fmul r RECENCY"
  define S1 where "S1 = fadd p1 p2"
  define S2 where "S2 = fadd S1 p3"
  define S3 where "S3 = fadd S2 p4"
  define y where "y = fmul S3 1000"
  define E where "E = spec_score_sum now st"
  have s0: "0 \<le> s0" "s0 \<le> 1" by (simp_all add: s0_def)
  have "s = binary64 s0" by (simp add: s_def s0_def fdiv_def binary64_min)
  with binary64_unit [OF s0] have s: "\<bar>s - s0\<bar> \<le> 4 * eps64" "0 \<le> s" "s \<le> 1"
    using eps64_pos by simp_all
  from binary64_unit [OF D] have d: "\<bar>d - sourceDiversity st\<bar> \<le> 4 * eps64" "0 \<le> d" "d \<le> 1"
    using eps64_pos by (simp_all add: d_def)
  from binary64_unit [OF C] have c: "\<bar>c - averageCredibility st\<bar> \<le> 4 * eps64" "0 \<le> c" "c \<le> 1"
    using eps64_pos by (simp_all add: c_def)
  have r: "\<bar>r - r0\<bar> \<le> 4 * eps64" "0 \<le> r" "r \<le> 1"
    unfolding r_def r0_def
    using recencyScore_err [OF F] recencyScore_nonneg recencyScore_le_1 [OF F] by simp_all
  have e1: "\<bar>p1 - s0 * (30 / 100)\<bar> \<le> 7 * (30 / 100) * eps64"
    unfolding p1_def SOURCE_COUNT_def by (rule fmul_weight_err [OF s(2,3) s(1)]) simp_all
  have e2: "\<bar>p2 - sourceDiversity st * (25 / 100)\<bar> \<le> 7 * (25 / 100) * eps64"
    unfolding p2_def SOURCE_DIVERSITY_def by (rule fmul_weight_err [OF d(2,3) d(1)]) simp_all
  have e3: "\<bar>p3 - averageCredibility st * (25 / 100)\<bar> \<le> 7 * (25 / 100) * eps64"
    unfolding p3_def CREDIBILITY_def by (rule fmul_weight_err [OF c(2,3) c(1)]) simp_all
  have e4: "\<bar>p4 - r0 * (20 / 100)\<bar> \<le> 7 * (20 / 100) * eps64"
    unfolding p4_def RECENCY_def by (rule fmul_weight_err [OF r(2,3) r(1)]) simp_all
  have p1: "0 \<le> p1" "p1 \<le> 1 / 2"
    unfolding p1_def
    using fmul_unit [OF s(2,3) weights_nonneg(1)] weights_le_half(1) by simp_all
  have p2: "0 \<le> p2" "p2 \<le> 1 / 2"
    unfolding p2_def
    using fmul_unit [OF d(2,3) weights_nonneg(2)] weights_le_half(2) by simp_all
  have p3: "0 \<le> p3" "p3 \<le> 1 / 2"
    unfolding p3_def
    using fmul_unit [OF c(2,3) weights_nonneg(3)] weights_le_half(3) by simp_all
  have p4: "0 \<le> p4" "p4 \<le> 1 / 2"
    unfolding p4_def
    using fmul_unit [OF r(2,3) weights_nonneg(4)] weights_le_half(4) by simp_all
  have f1: "\<bar>S1 - (p1 + p2)\<bar> \<le> 2 * eps64"
    unfolding S1_def using p1 p2 by (intro fadd_err) simp_all
  have "binary64 (p1 + p2) \<le> binary64 1" using p1 p2 by (intro binary64_mono) simp
  then have S1: "0 \<le> S1" "S1 \<le> 1"
    using p1 p2 by (simp_all add: S1_def fadd_nonneg) (simp add: fadd_def)
  have f2: "\<bar>S2 - (S1 + p3)\<bar> \<le> 2 * eps64"
    unfolding S2_def using S1 p3 by (intro fadd_err) simp_all
  have "binary64 (S1 + p3) \<le> binary64 (3 / 2)" using S1 p3 by (intro binary64_mono) simp
  then have "binary64 (S1 + p3) \<le> 3 / 2" by (simp add: binary64_eval)
  then have S2: "0 \<le> S2" "S2 \<le> 3 / 2"
    using S1 p3 by (simp_all add: S2_def fadd_nonneg) (simp add: fadd_def)
  have f3: "\<bar>S3 - (S2 + p4)\<bar> \<le> 2 * eps64"
    unfolding S3_def using S2 p4 by (intro fadd_err) simp_all
  have S3: "0 \<le> S3" "S3 \<le> 1"
    unfolding S3_def S2_def S1_def p1_def p2_def p3_def p4_def
    using weighted_sum_range [OF s(2,3) d(2,3) c(2,3) r(2,3)] by simp_all
  have E: "E = s0 * (30 / 100) + sourceDiversity st * (25 / 100) +
               averageCredibility st * (25 / 100) + r0 * (20 / 100)"
    by (simp add: E_def spec_score_sum_def s0_def r0_def)
  have g: "\<bar>S3 - E\<bar> \<le> 13 * eps64"
    using e1 e2 e3 e4 f1 f2 f3 unfolding E by linarith
  have "\<bar>S3 * 1000\<bar> \<le> 1000" using S3 by simp
  then have h: "\<bar>y - S3 * 1000\<bar> \<le> 1000 * eps64"
    unfolding y_def fmul_def by (rule binary64_abs_err)
  have "\<bar>of_int (Math_round y) - E * 1000\<bar> \<le> 1 / 2 + 14000 * eps64"
    using g h Math_round_err [of y] by linarith
  also have "\<dots> \<le> 1 / 2 + 1 / 100000000000" by (simp add: eps64_def)
  finally have close: "\<bar>of_int (Math_round y) - E * 1000\<bar> \<le> 1 / 2 + 1 / 100000000000" .
  have "orNum (binary64 (averageCredibility st)) (1 / 2) = c"
    using C0 by (simp add: orNum_def c_def)
  moreover have "orNum (binary64 (sourceDiversity st)) 0 = d"
    by (simp add: orNum_def d_def)
  ultimately have "calculateImportanceScore now st = fdiv (of_int (Math_round y)) 1000"
    unfolding calculateImportanceScore_def Let_def
    by (simp only: y_def S3_def S2_def S1_def p1_def p2_def p3_def p4_def s_def r_def)
  with close show ?thesis unfolding E_def by blast
qed

text \<open>
  \<^bold>\<open>C2.\<close> The score is not the worded formula for every story. For \<open>tie_story\<close> (2 sources,
  diversity 0.5, credibility 0.85, age 0) the exact weighted sum is 0.5975, which rounds to
  0.598, but the binary64 sum times 1000 lies below 597.5 and the code returns 0.597. With
  \<open>averageCredibility = 0\<close> the code scores the credibility as 0.5 (score 0.875 where the
  formula gives 0.75). For a story first seen 24 hours in the future the recency term is 2
  and the score 1.2, above 1, although diversity and credibility are within [0,1].
\<close>

theorem calculateImportanceScore_counterexample:
  "calculateImportanceScore 0 tie_story = binary64 (597 / 1000) \<and>
   spec_round3 (spec_score_sum 0 tie_story) = 598 / 1000 \<and>
   calculateImportanceScore 0 tie_story < binary64 (spec_round3 (spec_score_sum 0 tie_story)) \<and>
   calculateImportanceScore 0 (story0\<lparr>averageCredibility := 0\<rparr>) = binary64 (875 / 1000) \<and>
   spec_round3 (spec_score_sum 0 (story0\<lparr>averageCredibility := 0\<rparr>)) = 750 / 1000 \<and>
   0 \<le> sourceDiversity (story0\<lparr>firstSeen := 86400000\<rparr>) \<and>
   sourceDiversity (story0\<lparr>firstSeen := 86400000\<rparr>) \<le> 1 \<and>
   0 \<le> averageCredibility (story0\<lparr>firstSeen := 86400000\<rparr>) \<and>
   averageCredibility (story0\<lparr>firstSeen := 86400000\<rparr>) \<le> 1 \<and>
   calculateImportanceScore 0 (story0\<lparr>firstSeen := 86400000\<rparr>) = binary64 (1200 / 1000) \<and>
   1 < calculateImportanceScore 0 (story0\<lparr>firstSeen := 86400000\<rparr>)"
  by (simp add: tie_story_def story0_def score_eval binary64_eval)

text \<open>
  \<^bold>\<open>C2, amended.\<close> For a story whose average credibility is not 0, the score is the sum
  0.30 min(sourceCount/10, 1) + 0.25 sourceDiversity + 0.25 averageCredibility +
  0.20 max(0, 1 - ageHours/24) evaluated in binary64 arithmetic from left to right, times
  1000, rounded to the nearest integer \<open>n\<close> and divided by 1000. Whenever diversity and
  credibility are in [0,1] and the story was not first seen after \<open>now\<close>, the score lies in
  [0,1], and \<open>n\<close> is within \<open>1/2 + 10\<^sup>-\<^sup>1\<^sup>1\<close> of 1000 times the exact sum: the score is the
  exact sum rounded to 3 decimal places, except that next to a rounding tie it may be the
  other neighbouring thousandth. The recency term is 1 at age 0, 0.5 at 12 hours, 0 from
  24 hours on, and never negative.
\<close>

theorem calculateImportanceScore_formula:
  "(averageCredibility st \<noteq> 0 \<longrightarrow>
      calculateImportanceScore now st =
        fdiv (of_int (Math_round (fmul (spec_score_float now st) 1000))) 1000) \<and>
   (0 \<le> sourceDiversity st \<and> sourceDiversity st \<le> 1 \<and>
    0 \<le> averageCredibility st \<and> averageCredibility st \<le> 1 \<and> firstSeen st \<le> now \<longrightarrow>
      0 \<le> calculateImportanceScore now st \<and> calculateImportanceScore now st \<le> 1 \<and>
      (averageCredibility st \<noteq> 0 \<longrightarrow>
         (\<exists>n. calculateImportanceScore now st = fdiv (of_int n) 1000 \<and>
              \<bar>of_int n - spec_score_sum now st * 1000\<bar> \<le> 1 / 2 + 1 / 100000000000))) \<and>
   (now = firstSeen st \<longrightarrow> recencyScore now st = 1) \<and>
   (now - firstSeen st = 12 * 60 * 60 * 1000 \<longrightarrow> recencyScore now st = 1 / 2) \<and>
   (24 * 60 * 60 * 1000 \<le> now - firstSeen st \<longrightarrow> recencyScore now st = 0) \<and>
   0 \<le> recencyScore now st"
proof (intro conjI impI)
  assume "averageCredibility st \<noteq> 0"
  then show "calculateImportanceScore now st =
      fdiv (of_int (Math_round (fmul (spec_score_float now st) 1000))) 1000"
    by (rule calculateImportanceScore_spec_float)
next
  assume h: "0 \<le> sourceDiversity st \<and> sourceDiversity st \<le> 1 \<and>
    0 \<le> averageCredibility st \<and> averageCredibility st \<le> 1 \<and> firstSeen st \<le> now"
  then show "0 \<le> calculateImportanceScore now st"
    by (intro calculateImportanceScore_unit_range(1)) simp_all
next
  assume h: "0 \<le> sourceDiversity st \<and> sourceDiversity st \<le> 1 \<and>
    0 \<le> averageCredibility st \<and> averageCredibility st \<le> 1 \<and> firstSeen st \<le> now"
  then show "calculateImportanceScore now st \<le> 1"
    by (intro calculateImportanceScore_unit_range(2)) simp_all
next
  assume h: "0 \<le> sourceDiversity st \<and> sourceDiversity st \<le> 1 \<and>
    0 \<le> averageCredibility st \<and> averageCredibility st \<le> 1 \<and> firstSeen st \<le> now"
    and "averageCredibility st \<noteq> 0"
  then show "\<exists>n. calculateImportanceScore now st = fdiv (of_int n) 1000 \<and>
              \<bar>of_int n - spec_score_sum now st * 1000\<bar> \<le> 1 / 2 + 1 / 100000000000"
    by (intro calculateImportanceScore_close) simp_all
next
  assume "now = firstSeen st"
  then show "recencyScore now st = 1"
    by (simp add: recencyScore_def ageHours_def fdiv_def fsub_def)
next
  assume "now - firstSeen st = 12 * 60 * 60 * 1000"
  then show "recencyScore now st = 1 / 2"
    by (simp add: recencyScore_def ageHours_def MAX_RECENCY_HOURS_def binary64_eval)
next
  assume "24 * 60 * 60 * 1000 \<le> now - firstSeen st"
  then show "recencyScore now st = 0" by (rule recencyScore_old)
next
  show "0 \<le> recencyScore now st" by (rule recencyScore_nonneg)
qed

theorem calculateImportanceScore_formula_witness:
  "averageCredibility tie_story \<noteq> 0 \<and>
   0 \<le> sourceDiversity tie_story \<and> sourceDiversity tie_story \<le> 1 \<and>
   0 \<le> averageCredibility tie_story \<and> averageCredibility tie_story \<le> 1 \<and>
   firstSeen tie_story \<le> 0 \<and>
   calculateImportanceScore 0 tie_story =
     fdiv (of_int (Math_round (fmul (spec_score_float 0 tie_story) 1000))) 1000 \<and>
   0 \<le> calculateImportanceScore 0 tie_story \<and> calculateImportanceScore 0 tie_story \<le> 1 \<and>
   (\<exists>n. calculateImportanceScore 0 tie_story = fdiv (of_int n) 1000 \<and>
        \<bar>of_int n - spec_score_sum 0 tie_story * 1000\<bar> \<le> 1 / 2 + 1 / 100000000000) \<and>
   recencyScore (firstSeen tie_story) tie_story = 1 \<and>
   recencyScore 43200000 tie_story = 1 / 2 \<and>
   recencyScore 90000000 tie_story = 0"
proof -
  have c0: "averageCredibility tie_story \<noteq> 0"
    by (simp add: tie_story_def story0_def)
  have h: "0 \<le> sourceDiversity tie_story \<and> sourceDiversity tie_story \<le> 1 \<and>
    0 \<le> averageCredibility tie_story \<and> averageCredibility tie_story \<le> 1 \<and>
    firstSeen tie_story \<le> 0"
    by (simp add: tie_story_def story0_def)
  have h12: "43200000 - firstSeen tie_story = 12 * 60 * 60 * 1000"
    by (simp add: tie_story_def story0_def)
  have h24: "24 * 60 * 60 * 1000 \<le> 90000000 - firstSeen tie_story"
    by (simp add: tie_story_def story0_def)
  note T = calculateImportanceScore_formula [of tie_story 0]
  from T c0 have f: "calculateImportanceScore 0 tie_story =
     fdiv (of_int (Math_round (fmul (spec_score_float 0 tie_story) 1000))) 1000"
    by blast
  from T h c0
  have r: "0 \<le> calculateImportanceScore 0 tie_story \<and> calculateImportanceScore 0 tie_story \<le> 1 \<and>
    (\<exists>n. calculateImportanceScore 0 tie_story = fdiv (of_int n) 1000 \<and>
        \<bar>of_int n - spec_score_sum 0 tie_story * 1000\<bar> \<le> 1 / 2 + 1 / 100000000000)"
    by blast
  from calculateImportanceScore_formula [of tie_story "firstSeen tie_story"]
  have r0: "recencyScore (firstSeen tie_story) tie_story = 1" by blast
  from calculateImportanceScore_formula [of tie_story 43200000] h12
  have r12: "recencyScore 43200000 tie_story = 1 / 2" by blast
  from calculateImportanceScore_formula [of tie_story 90000000] h24
  have r24: "recencyScore 90000000 tie_story = 0" by blast
  from c0 h f r r0 r12 r24 show ?thesis by blast
qed

section \<open>Properties of the store operations\<close>

lemma find_replaceFirst:
  "P y \<Longrightarrow> find P (replaceFirst P y xs) = (if find P xs = None then None else Some y)"
  by (induction xs) auto

lemma find_sid: "find (\<lambda>x. sid x = i) xs = Some st \<Longrightarrow> sid st = i"
  by (induction xs) (auto split: if_splits)

lemma findById_sid: "findById d i = Some st \<Longrightarrow> sid st = i"
  unfolding findById_def by (rule find_sid)

lemma findById_saveStory:
  "findById d (sid st) = Some st0 \<Longrightarrow> findById (saveStory st d) (sid st) = Some st"
  by (simp add: findById_def saveStory_def find_replaceFirst)

lemma storySources_saveStory [simp]: "storySources (saveStory st d) = storySources d"
  by (simp add: saveStory_def)

lemma sources_saveStory [simp]: "sources (saveStory st d) = sources d"
  by (simp add: saveStory_def)

lemma fold_max_ge_init: "(a :: nat) \<le> fold max xs a"
  by (induction xs arbitrary: a) (auto intro: order_trans [OF max.cobounded2])

lemma fold_max_ge_elem: "x \<in> set xs \<Longrightarrow> (x :: nat) \<le> fold max xs a"
proof (induction xs arbitrary: a)
  case Nil
  then show ?case by simp
next
  case (Cons y ys)
  show ?case
  proof (cases "x = y")
    case True
    have "y \<le> max y a" by simp
    also have "\<dots> \<le> fold max ys (max y a)" by (rule fold_max_ge_init)
    finally show ?thesis using True by simp
  next
    case False
    with Cons show ?thesis by simp
  qed
qed

lemma freshId_stories: "st \<in> set (stories d) \<Longrightarrow> sid st < freshId d"
  unfolding freshId_def using fold_max_ge_elem [of "sid st" "map sid (stories d) @ map storyId (storySources d)" 0]
  by (simp add: less_Suc_eq_le)

lemma freshId_links: "r \<in> set (storySources d) \<Longrightarrow> storyId r < freshId d"
  unfolding freshId_def using fold_max_ge_elem [of "storyId r" "map sid (stories d) @ map storyId (storySources d)" 0]
  by (simp add: less_Suc_eq_le)

lemma find_append_fresh:
  "\<forall>x \<in> set xs. \<not> P x \<Longrightarrow> P y \<Longrightarrow> find P (xs @ [y]) = Some y"
  by (induction xs) auto

lemma getOrCreate_keeps:
  "getOrCreate now d n = (d', r) \<Longrightarrow> stories d' = stories d \<and> storySources d' = storySources d"
  unfolding getOrCreate_def
  by (auto simp: Let_def split: option.splits if_splits)

lemma getOrCreate_error:
  "getOrCreate now d n = (d', Inl e) \<Longrightarrow> d' = d"
  unfolding getOrCreate_def
  by (auto simp: Let_def split: option.splits if_splits)

lemma createStorySource_Inr:
  "createStorySource d r = (d', Inr r') \<Longrightarrow>
     r' = r \<and> d' = d\<lparr>storySources := storySources d @ [r]\<rparr> \<and> validStorySource r \<and>
     \<not> (\<exists>x \<in> set (storySources d). storyId x = storyId r \<and> articleId x = articleId r)"
  unfolding createStorySource_def by (auto split: if_splits)

lemma createStorySource_Inl:
  "createStorySource d r = (d', Inl e) \<Longrightarrow> d' = d"
  unfolding createStorySource_def by (auto split: if_splits)

lemma linksOf_cong: "storySources d = storySources e \<Longrightarrow> linksOf d i = linksOf e i"
  by (simp add: linksOf_def)

lemma calculateSourceDiversity_cong:
  "storySources d = storySources e \<Longrightarrow> calculateSourceDiversity d i = calculateSourceDiversity e i"
  by (simp add: calculateSourceDiversity_def linksOf_def)

lemma calculateAverageCredibility_cong:
  "storySources d = storySources e \<Longrightarrow>
     calculateAverageCredibility d i = calculateAverageCredibility e i"
  by (simp add: calculateAverageCredibility_def linksOf_def)

text \<open>What a call of \<^const>\<open>addArticleToStory\<close> that adds the link has done.\<close>

lemma addArticleToStory_Linked:
  assumes "addArticleToStory now d i a sc = (d', Inr (Linked st'))"
  shows "\<exists>st src d1 link.
      findById d i = Some st \<and> getOrCreate now d (source a) = (d1, Inr src) \<and>
      \<not> (\<exists>r \<in> set (storySources d). storyId r = i \<and> Some (sourceName r) = source a) \<and>
      storyId link = i \<and> articleId link = aid a \<and> sourceName link = orEmpty (source a) \<and>
      validStorySource link \<and>
      storySources d' = storySources d @ [link] \<and>
      st' = st\<lparr>sourceCount := sourceCount st + 1, lastUpdated := now,
                sourceDiversity := calculateSourceDiversity d' i,
                averageCredibility := calculateAverageCredibility d' i\<rparr> \<and>
      validStory st' \<and>
      stories d' = replaceFirst (\<lambda>x. sid x = i) (st'\<lparr>importanceScore := importanceOf now st'\<rparr>) (stories d) \<and>
      sources d' = sources d1"
proof -
  from assms obtain st where st: "findById d i = Some st"
    unfolding addArticleToStory_def by (auto split: option.splits)
  obtain d1 r1 where g: "getOrCreate now d (source a) = (d1, r1)" by (cases "getOrCreate now d (source a)")
  with assms st obtain src where src: "r1 = Inr src"
    unfolding addArticleToStory_def by (cases r1) auto
  have keep: "stories d1 = stories d" "storySources d1 = storySources d"
    using getOrCreate_keeps [OF g] by simp_all
  have nolink: "\<not> (\<exists>r \<in> set (storySources d1). storyId r = i \<and> Some (sourceName r) = source a)"
    using assms st g src unfolding addArticleToStory_def by (auto split: if_splits)
  define link where "link = \<lparr> storyId = i, articleId = aid a,
                              sourceName = orEmpty (source a),
                              originalHeadline = title a,
                              link_url = orEmpty (url a),
                              link_publishedAt = (case publishedAt a of None \<Rightarrow> now | Some t \<Rightarrow> t),
                              credibilityScore = src_credibilityScore src,
                              isPrimary = False, similarityScore = sc \<rparr>"
  obtain d2 r2 where c: "createStorySource d1 link = (d2, r2)" by (cases "createStorySource d1 link")
  have r2: "\<exists>r. r2 = Inr r"
    using assms nolink c unfolding addArticleToStory_def st g src link_def
    by (cases r2) (auto simp: Let_def)
  then obtain r where r: "r2 = Inr r" by blast
  from createStorySource_Inr [OF c [unfolded r]]
  have d2: "d2 = d1\<lparr>storySources := storySources d1 @ [link]\<rparr>" and vl: "validStorySource link"
    by simp_all
  define st3 where "st3 = st\<lparr>sourceCount := sourceCount st + 1, lastUpdated := now,
                sourceDiversity := calculateSourceDiversity d2 i,
                averageCredibility := calculateAverageCredibility d2 i\<rparr>"
  have sid3: "sid st3 = i" using findById_sid [OF st] by (simp add: st3_def)
  have body: "(if \<not> validStory st3 then (d2, Inl ValidationError)
               else let d3 = saveStory st3 d2; (d4, r) = recalculateImportance now d3 i
                    in (d4, Inr (Linked st3))) = (d', Inr (Linked st'))"
    using assms nolink c unfolding addArticleToStory_def st g src link_def r st3_def
    by (auto simp: Let_def split: if_splits prod.splits)
  then have valid: "validStory st3" by (auto split: if_splits)
  have f2: "findById d2 (sid st3) = Some st"
    using st keep by (simp add: findById_def d2 sid3)
  have f3: "findById (saveStory st3 d2) i = Some st3"
    using findById_saveStory [OF f2] sid3 by simp
  from body valid f3 have res: "st' = st3"
    and d': "d' = saveStory (st3\<lparr>importanceScore := importanceOf now st3\<rparr>) (saveStory st3 d2)"
    by (auto simp: Let_def recalculateImportance_def split: prod.splits)
  have ss': "storySources d' = storySources d @ [link]"
    using d' d2 keep by simp
  have rf: "replaceFirst (\<lambda>x. sid x = i) y (replaceFirst (\<lambda>x. sid x = i) z xs) =
            replaceFirst (\<lambda>x. sid x = i) y xs" if "sid z = i" for y z and xs :: "story list"
    using that by (induction xs) auto
  have stories': "stories d' =
      replaceFirst (\<lambda>x. sid x = i) (st3\<lparr>importanceScore := importanceOf now st3\<rparr>) (stories d)"
    using d' d2 keep sid3 by (simp add: saveStory_def rf)
  have div: "calculateSourceDiversity d2 i = calculateSourceDiversity d' i"
    by (rule calculateSourceDiversity_cong) (simp add: ss' d2 keep)
  have avg: "calculateAverageCredibility d2 i = calculateAverageCredibility d' i"
    by (rule calculateAverageCredibility_cong) (simp add: ss' d2 keep)
  have src': "sources d' = sources d1" using d' d2 by simp
  show ?thesis
    apply (rule exI [of _ st], rule exI [of _ src], rule exI [of _ d1], rule exI [of _ link])
    using st g src nolink keep vl ss' res valid stories' src' div avg
    by (simp add: st3_def link_def)
qed

lemma addArticleToStory_Linked_persisted:
  assumes "addArticleToStory now d i a sc = (d', Inr (Linked st'))"
  shows "findById d' i = Some (st'\<lparr>importanceScore := importanceOf now st'\<rparr>)"
proof -
  from addArticleToStory_Linked [OF assms] obtain st where
    st: "findById d i = Some st" and
    st': "st' = st\<lparr>sourceCount := sourceCount st + 1, lastUpdated := now,
                sourceDiversity := calculateSourceDiversity d' i,
                averageCredibility := calculateAverageCredibility d' i\<rparr>" and
    stories': "stories d' = replaceFirst (\<lambda>x. sid x = i) (st'\<lparr>importanceScore := importanceOf now st'\<rparr>) (stories d)"
    by blast
  have "sid st' = i" using findById_sid [OF st] st' by simp
  then show ?thesis
    using st unfolding findById_def stories' by (simp add: find_replaceFirst)
qed

lemma storySources_recalculateImportance:
  "recalculateImportance now d i = (d', r) \<Longrightarrow> storySources d' = storySources d"
  unfolding recalculateImportance_def by (auto simp: Let_def split: option.splits)

text \<open>Whatever its result, \<^const>\<open>addArticleToStory\<close> adds at most one link, and only for a
  source name the story does not have yet.\<close>

lemma addArticleToStory_storySources:
  assumes "addArticleToStory now d i a sc = (d', res)"
  shows "storySources d' = storySources d \<or>
         (\<exists>link. storySources d' = storySources d @ [link] \<and> storyId link = i \<and>
                 articleId link = aid a \<and> validStorySource link \<and>
                 (\<forall>r \<in> set (storySources d). storyId r = i \<longrightarrow> sourceName r \<noteq> sourceName link))"
proof (cases "findById d i")
  case None
  with assms show ?thesis by (simp add: addArticleToStory_def)
next
  case (Some st)
  obtain d1 r1 where g: "getOrCreate now d (source a) = (d1, r1)"
    by (cases "getOrCreate now d (source a)")
  have keep: "storySources d1 = storySources d" using getOrCreate_keeps [OF g] by simp
  show ?thesis
  proof (cases r1)
    case (Inl e)
    with assms Some g keep show ?thesis by (simp add: addArticleToStory_def)
  next
    case (Inr src)
    show ?thesis
    proof (cases "\<exists>r \<in> set (storySources d1). storyId r = i \<and> Some (sourceName r) = source a")
      case True
      with assms Some g Inr keep show ?thesis by (simp add: addArticleToStory_def)
    next
      case False
      define link where "link = \<lparr> storyId = i, articleId = aid a,
                              sourceName = orEmpty (source a),
                              originalHeadline = title a,
                              link_url = orEmpty (url a),
                              link_publishedAt = (case publishedAt a of None \<Rightarrow> now | Some t \<Rightarrow> t),
                              credibilityScore = src_credibilityScore src,
                              isPrimary = False, similarityScore = sc \<rparr>"
      obtain d2 r2 where c: "createStorySource d1 link = (d2, r2)"
        by (cases "createStorySource d1 link")
      show ?thesis
      proof (cases r2)
        case (Inl e)
        have "d2 = d1" using createStorySource_Inl [OF c [unfolded Inl]] .
        moreover have "d' = d2"
          using assms False c unfolding addArticleToStory_def Some g Inr link_def Inl
          by (auto simp: Let_def)
        ultimately show ?thesis using keep by simp
      next
        case r: (Inr r)
        from createStorySource_Inr [OF c [unfolded r]]
        have d2: "storySources d2 = storySources d @ [link]" and vl: "validStorySource link"
          using keep by simp_all
        have "storySources d' = storySources d2"
          using assms False c unfolding addArticleToStory_def Some g Inr link_def r
          by (auto simp: Let_def dest: storySources_recalculateImportance
              split: if_splits prod.splits)
        moreover have "sourceName r' \<noteq> sourceName link"
          if "r' \<in> set (storySources d)" "storyId r' = i" for r'
        proof -
          from vl have "orEmpty (source a) \<noteq> []" by (simp add: validStorySource_def link_def)
          then have "source a = Some (orEmpty (source a))"
            by (cases "source a") (simp_all add: orEmpty_def)
          moreover from False that keep have "Some (sourceName r') \<noteq> source a" by auto
          ultimately show ?thesis by (auto simp: link_def)
        qed
        ultimately show ?thesis using d2 vl by (auto simp: link_def)
      qed
    qed
  qed
qed

lemma freshId_cong:
  "stories d = stories e \<Longrightarrow> storySources d = storySources e \<Longrightarrow> freshId d = freshId e"
  by (simp add: freshId_def)

text \<open>A story created by \<^const>\<open>createStoryFromArticle\<close>.\<close>

lemma createStoryFromArticle_Inr:
  assumes "createStoryFromArticle now d a = (d', Inr st)"
  shows "\<exists>link. stories d' = stories d @ [st] \<and> storySources d' = storySources d @ [link] \<and>
           sid st = freshId d \<and> storyId link = freshId d \<and> articleId link = aid a \<and>
           sourceName link = orEmpty (source a) \<and>
           sourceCount st = 1 \<and> sourceDiversity st = 0 \<and>
           importanceScore st = averageCredibility st * (25 / 100)"
proof -
  obtain d1 r1 where g: "getOrCreate now d (source a) = (d1, r1)"
    by (cases "getOrCreate now d (source a)")
  with assms obtain src where src: "r1 = Inr src"
    unfolding createStoryFromArticle_def by (cases r1) auto
  have keep: "stories d1 = stories d" "storySources d1 = storySources d"
    using getOrCreate_keeps [OF g] by simp_all
  have fresh: "freshId d1 = freshId d" using keep by (rule freshId_cong)
  show ?thesis
    using assms keep fresh unfolding createStoryFromArticle_def g src
    by (auto simp: Let_def createStorySource_def split: if_splits)
qed

lemma createStoryFromArticle_storySources:
  assumes "createStoryFromArticle now d a = (d', res)"
  shows "storySources d' = storySources d \<or>
         (\<exists>link. storySources d' = storySources d @ [link] \<and> storyId link = freshId d \<and>
                 articleId link = aid a)"
proof -
  obtain d1 r1 where g: "getOrCreate now d (source a) = (d1, r1)"
    by (cases "getOrCreate now d (source a)")
  have keep: "stories d1 = stories d" "storySources d1 = storySources d"
    using getOrCreate_keeps [OF g] by simp_all
  have fresh: "freshId d1 = freshId d" using keep by (rule freshId_cong)
  show ?thesis
    using assms keep fresh unfolding createStoryFromArticle_def g
    by (cases r1) (auto simp: Let_def createStorySource_def split: if_splits)
qed

lemma uniqueSources_append:
  "uniqueSources d \<Longrightarrow> storySources d' = storySources d @ [link] \<Longrightarrow>
   (\<forall>r \<in> set (storySources d). storyId r = storyId link \<longrightarrow> sourceName r \<noteq> sourceName link) \<Longrightarrow>
   uniqueSources d'"
  unfolding uniqueSources_def by auto

lemma uniqueSources_cong:
  "uniqueSources d \<Longrightarrow> storySources d' = storySources d \<Longrightarrow> uniqueSources d'"
  unfolding uniqueSources_def by simp

lemma uniqueSources_addArticleToStory:
  assumes "uniqueSources d"
  shows "uniqueSources (fst (addArticleToStory now d i a sc))"
proof -
  obtain d' res where r: "addArticleToStory now d i a sc = (d', res)"
    by (cases "addArticleToStory now d i a sc")
  from addArticleToStory_storySources [OF r] assms have "uniqueSources d'"
    by (auto intro: uniqueSources_cong uniqueSources_append)
  with r show ?thesis by simp
qed

lemma uniqueSources_createStoryFromArticle:
  assumes "uniqueSources d"
  shows "uniqueSources (fst (createStoryFromArticle now d a))"
proof -
  obtain d' res where r: "createStoryFromArticle now d a = (d', res)"
    by (cases "createStoryFromArticle now d a")
  from createStoryFromArticle_storySources [OF r] have "uniqueSources d'"
  proof
    assume "storySources d' = storySources d"
    with assms show ?thesis by (rule uniqueSources_cong)
  next
    assume "\<exists>link. storySources d' = storySources d @ [link] \<and> storyId link = freshId d \<and>
                 articleId link = aid a"
    then obtain link where l: "storySources d' = storySources d @ [link]" "storyId link = freshId d"
      by blast
    have "\<forall>r \<in> set (storySources d). storyId r = storyId link \<longrightarrow> sourceName r \<noteq> sourceName link"
      using freshId_links [of _ d] l(2) by (metis less_irrefl)
    with assms l(1) show ?thesis by (rule uniqueSources_append)
  qed
  with r show ?thesis by simp
qed

lemma uniqueSources_processArticle:
  assumes "uniqueSources d"
  shows "uniqueSources (fst (processArticle now d a))"
proof (cases "\<exists>r \<in> set (storySources d). articleId r = aid a")
  case True
  with assms show ?thesis by (simp add: processArticle_def)
next
  case False
  show ?thesis
  proof (cases "findMatchingStory now d a")
    case None
    have "fst (processArticle now d a) = fst (createStoryFromArticle now d a)"
      using False None unfolding processArticle_def
      by (auto split: prod.splits sum.splits)
    then show ?thesis using uniqueSources_createStoryFromArticle [OF assms] by simp
  next
    case (Some m)
    obtain st sc where m: "m = (st, sc)" by (cases m)
    have "fst (processArticle now d a) = fst (addArticleToStory now d (sid st) a sc)"
      using False Some m unfolding processArticle_def
      by (auto split: prod.splits sum.splits)
    then show ?thesis using uniqueSources_addArticleToStory [OF assms] by simp
  qed
qed

lemma uniqueSources_clusterLoop:
  "uniqueSources d \<Longrightarrow> uniqueSources (fst (clusterLoop batch (d, res)))"
proof (induction batch arbitrary: d res)
  case Nil
  then show ?case by simp
next
  case (Cons x batch)
  obtain now a where x: "x = (now, a)" by (cases x)
  obtain d' out where p: "processArticle now d a = (d', out)"
    by (cases "processArticle now d a")
  have "uniqueSources d'" using uniqueSources_processArticle [OF Cons.prems, of now a] p by simp
  from Cons.IH [OF this] show ?case by (simp add: x p)
qed

lemma uniqueSources_clusterArticles:
  "uniqueSources d \<Longrightarrow> uniqueSources (fst (clusterArticles d batch))"
  unfolding clusterArticles_def by (rule uniqueSources_clusterLoop)

lemma fold_choice:
  assumes "\<And>x acc. fst (f x acc) = fst acc \<or> fst (f x acc) = Some x"
  shows "fst (fold f xs acc) = fst acc \<or> (\<exists>x \<in> set xs. fst (fold f xs acc) = Some x)"
proof (induction xs arbitrary: acc)
  case Nil
  then show ?case by simp
next
  case (Cons y ys)
  from Cons.IH [of "f y acc"] assms [of y acc] show ?case by auto
qed

lemma findMatchingStory_Some:
  assumes "findMatchingStory now d a = Some (st, sc)"
  shows "st \<in> set (stories d)"
proof -
  define step where "step = (\<lambda>st (bestMatch :: story option, bestScore :: rat).
                     let similarity = calculateTitleSimilarity (orEmpty (title a)) (canonicalTitle st)
                     in if similarity > SIMILARITY_THRESHOLD \<and> similarity > bestScore
                        then (Some st, similarity) else (bestMatch, bestScore))"
  define recent where "recent = filter (\<lambda>st. now - 48 * 60 * 60 * 1000 \<le> firstSeen st \<and>
                                        category st = orElse (a_category a) ''general'') (stories d)"
  have choice: "fst (step x acc) = fst acc \<or> fst (step x acc) = Some x" for x acc
    by (cases acc) (simp add: step_def Let_def)
  have "fst (fold step recent (None, 0)) = Some st"
    using assms unfolding findMatchingStory_def step_def recent_def
    by (auto simp: Let_def split: prod.splits option.splits)
  with fold_choice [of step recent "(None, 0)", OF choice] have "st \<in> set recent" by auto
  then show ?thesis by (simp add: recent_def)
qed

lemma find_member: "x \<in> set xs \<Longrightarrow> P x \<Longrightarrow> find P xs \<noteq> None"
  by (induction xs) auto

lemma findById_member: "st \<in> set (stories d) \<Longrightarrow> findById d (sid st) \<noteq> None"
  unfolding findById_def by (rule find_member) simp_all

lemma getOrCreate_None: "getOrCreate now d None = (d, Inl ValidationError)"
proof -
  have "find (\<lambda>s. Some (name s) = None) (sources d) = None"
    by (simp add: find_None_iff)
  then show ?thesis by (simp add: getOrCreate_def)
qed

text \<open>Accumulated results: a batch run from any counters adds to them what it adds to zero.\<close>

lemma count_addResults: "count out (addResults res r) = addResults (count out res) r"
  by (cases out) (simp_all add: count_def addResults_def)

lemma addResults_zero:
  "addResults res \<lparr> newStories = 0, mergedArticles = 0, skipped = 0, errors = 0 \<rparr> = res"
  "addResults \<lparr> newStories = 0, mergedArticles = 0, skipped = 0, errors = 0 \<rparr> res = res"
  by (simp_all add: addResults_def)

lemma clusterLoop_shift:
  "clusterLoop batch (d, addResults res r) =
     (case clusterLoop batch (d, r) of (d', r') \<Rightarrow> (d', addResults res r'))"
proof (induction batch arbitrary: d r)
  case Nil
  show ?case by simp
next
  case (Cons x batch)
  obtain now a where x: "x = (now, a)" by (cases x)
  obtain d1 out where p: "processArticle now d a = (d1, out)"
    by (cases "processArticle now d a")
  have c: "count out (addResults res r) = addResults res (count out r)"
    by (cases out) (simp_all add: count_def addResults_def)
  show ?case using Cons.IH [of d1 "count out r"] by (simp add: x p c)
qed

lemma clusterLoop_append:
  "clusterLoop (xs @ ys) s = clusterLoop ys (clusterLoop xs s)"
proof (induction xs arbitrary: s)
  case Nil
  show ?case by (cases s) simp
next
  case (Cons x xs)
  obtain now a where x: "x = (now, a)" by (cases x)
  obtain d res where s: "s = (d, res)" by (cases s)
  show ?case using Cons.IH by (simp add: x s split: prod.splits)
qed

lemma clusterLoop_total:
  "clusterLoop batch (d, res) = (d', res') \<Longrightarrow>
   newStories res' + mergedArticles res' + skipped res' + errors res' =
   newStories res + mergedArticles res + skipped res + errors res + length batch"
proof (induction batch arbitrary: d res)
  case Nil
  then show ?case by simp
next
  case (Cons x batch)
  obtain now a where x: "x = (now, a)" by (cases x)
  obtain d1 out where p: "processArticle now d a = (d1, out)"
    by (cases "processArticle now d a")
  have c: "newStories (count out res) + mergedArticles (count out res) +
           skipped (count out res) + errors (count out res) =
           newStories res + mergedArticles res + skipped res + errors res + 1"
    by (cases out) (simp_all add: count_def)
  from Cons.prems have "clusterLoop batch (d1, count out res) = (d', res')"
    by (simp add: x p)
  from Cons.IH [OF this] c show ?case by simp
qed
section \<open>Clustering: freshness of the score, uniqueness, idempotence\<close>

text \<open>The rules that evaluate the store operations on the sample stores, leaving the
  stored score as the term \<open>importanceOf now st\<close>.\<close>

lemmas store_eval =
  addArticleToStory_def findById_def getOrCreate_def createStorySource_def validStorySource_def
  calculateSourceDiversity_def calculateAverageCredibility_def linksOf_def categoryOf_def
  sourceCategories_def objectPrototypeMembers_def validStory_def recalculateImportance_def
  saveStory_def KNOWN_SOURCE_SCORES_def orEmpty_def orElse_def orNum_def Let_def numeral_2_eq_2

lemmas storm_defs =
  stormDb_def stormDb2_def storm_story_def storm_story2_def storm_link_def reuters_doc_def
  storm_bbc_def storm_reuters_def storm_reuters_again_def article0_def


lemma importanceOf_update [simp]:
  "importanceOf now (st\<lparr>importanceScore := x\<rparr>) = importanceOf now st"
  by (simp add: importanceOf_def)

lemma calculateImportanceScore_update [simp]:
  "calculateImportanceScore now (st\<lparr>importanceScore := x\<rparr>) = calculateImportanceScore now st"
  by (simp add: calculateImportanceScore_def recencyScore_def ageHours_def)





lemma getOrCreate_named:
  "n \<noteq> [] \<Longrightarrow> \<exists>d1 src. getOrCreate now d (Some n) = (d1, Inr src)"
  unfolding getOrCreate_def by (auto simp: Let_def split: option.splits)

text \<open>
  \<^bold>\<open>C5.\<close> At most one link per story and source name is an invariant of
  \<^verbatim>\<open>addArticleToStory\<close> and of a whole clustering batch, and it holds in every store
  that batches build from the empty one. When the article's source name is
  already linked to the story, the call ends normally at the logged skip, returns the story
  as loaded, and leaves the links and the stories of the store (hence the story's source
  count, diversity, average credibility and importance score) as they were.
\<close>

theorem addArticleToStory_unique_source:
  "uniqueSources (fst (clusterArticles emptyDb batch)) \<and>
   (uniqueSources d \<longrightarrow>
      uniqueSources (fst (addArticleToStory now d i a sc)) \<and>
      uniqueSources (fst (clusterArticles d batch))) \<and>
   (findById d i = Some st \<and> (\<forall>r \<in> set (storySources d). validStorySource r) \<and>
    (\<exists>r \<in> set (storySources d). storyId r = i \<and> Some (sourceName r) = source a) \<longrightarrow>
      (\<exists>d'. addArticleToStory now d i a sc = (d', Inr (AlreadyLinked st)) \<and>
            storySources d' = storySources d \<and> stories d' = stories d \<and>
            findById d' i = Some st))"
proof (intro conjI impI)
  have "uniqueSources emptyDb" by (simp add: uniqueSources_def emptyDb_def)
  then show "uniqueSources (fst (clusterArticles emptyDb batch))"
    by (rule uniqueSources_clusterArticles)
next
  assume "uniqueSources d"
  then show "uniqueSources (fst (addArticleToStory now d i a sc))"
    by (rule uniqueSources_addArticleToStory)
next
  assume "uniqueSources d"
  then show "uniqueSources (fst (clusterArticles d batch))"
    by (rule uniqueSources_clusterArticles)
next
  assume h: "findById d i = Some st \<and> (\<forall>r \<in> set (storySources d). validStorySource r) \<and>
    (\<exists>r \<in> set (storySources d). storyId r = i \<and> Some (sourceName r) = source a)"
  then obtain r where r: "r \<in> set (storySources d)" "storyId r = i" "Some (sourceName r) = source a"
    by blast
  from h r(1) have "sourceName r \<noteq> []" by (auto simp: validStorySource_def)
  from getOrCreate_named [OF this, of now d] obtain d1 src
    where g: "getOrCreate now d (source a) = (d1, Inr src)" using r(3) by auto
  have keep: "stories d1 = stories d" "storySources d1 = storySources d"
    using getOrCreate_keeps [OF g] by simp_all
  have "\<exists>r \<in> set (storySources d1). storyId r = i \<and> Some (sourceName r) = source a"
    using r keep by auto
  then have "addArticleToStory now d i a sc = (d1, Inr (AlreadyLinked st))"
    using h g by (simp add: addArticleToStory_def)
  moreover have "findById d1 i = Some st" using h keep by (simp add: findById_def)
  ultimately show "\<exists>d'. addArticleToStory now d i a sc = (d', Inr (AlreadyLinked st)) \<and>
            storySources d' = storySources d \<and> stories d' = stories d \<and>
            findById d' i = Some st"
    using keep by blast
qed

theorem addArticleToStory_unique_source_witness:
  "uniqueSources stormDb \<and>
   uniqueSources (fst (addArticleToStory 0 stormDb 1 storm_bbc 1)) \<and>
   uniqueSources (fst (clusterArticles stormDb [(0, storm_bbc)])) \<and>
   findById stormDb 1 = Some storm_story \<and>
   list_all validStorySource (storySources stormDb) \<and>
   (\<exists>r \<in> set (storySources stormDb). storyId r = 1 \<and> Some (sourceName r) = source storm_reuters_again) \<and>
   (\<exists>d'. addArticleToStory 0 stormDb 1 storm_reuters_again 1 = (d', Inr (AlreadyLinked storm_story)) \<and>
         storySources d' = storySources stormDb \<and> stories d' = stories stormDb \<and>
         findById d' 1 = Some storm_story)"
proof -
  have u: "uniqueSources stormDb" by code_simp
  have h': "findById stormDb 1 = Some storm_story \<and>
     list_all validStorySource (storySources stormDb) \<and>
     (\<exists>r \<in> set (storySources stormDb). storyId r = 1 \<and> Some (sourceName r) = source storm_reuters_again)"
    by code_simp
  then have h: "findById stormDb 1 = Some storm_story \<and>
     (\<forall>r \<in> set (storySources stormDb). validStorySource r) \<and>
     (\<exists>r \<in> set (storySources stormDb). storyId r = 1 \<and> Some (sourceName r) = source storm_reuters_again)"
    unfolding list_all_iff .
  note T = addArticleToStory_unique_source
    [where d = stormDb and now = 0 and i = 1 and a = storm_bbc and sc = 1
       and batch = "[(0, storm_bbc)]" and st = storm_story]
  note T' = addArticleToStory_unique_source
    [where d = stormDb and now = 0 and i = 1 and a = storm_reuters_again and sc = 1
       and batch = "[(0, storm_bbc)]" and st = storm_story]
  from T u have a: "uniqueSources (fst (addArticleToStory 0 stormDb 1 storm_bbc 1)) \<and>
      uniqueSources (fst (clusterArticles stormDb [(0, storm_bbc)]))" by blast
  from T' h have b: "\<exists>d'. addArticleToStory 0 stormDb 1 storm_reuters_again 1 = (d', Inr (AlreadyLinked storm_story)) \<and>
         storySources d' = storySources stormDb \<and> stories d' = stories stormDb \<and>
         findById d' 1 = Some storm_story" by blast
  from u a h' b show ?thesis by blast
qed

section \<open>Source diversity\<close>

lemma calculateSourceDiversity_card:
  "calculateSourceDiversity d i =
     min (of_nat (card (categoryOf ` sourceName ` set (linksOf d i))) / 6) 1"
  by (simp add: calculateSourceDiversity_def Let_def length_remdups_card_conv image_image)

lemma categoryOf_six:
  assumes "src \<notin> set objectPrototypeMembers"
  shows "categoryOf src \<in> Category ` set sixCategories"
proof (cases "map_of sourceCategories src")
  case None
  with assms show ?thesis by (simp add: categoryOf_def sixCategories_def)
next
  case (Some c)
  then have "(src, c) \<in> set sourceCategories" by (rule map_of_SomeD)
  then have "c \<in> set sixCategories"
    unfolding sourceCategories_def sixCategories_def by auto
  with Some show ?thesis by (simp add: categoryOf_def)
qed

lemma card_six: "card (Category ` set sixCategories) \<le> 6"
proof -
  have "card (Category ` set sixCategories) \<le> card (set sixCategories)"
    by (rule card_image_le) simp
  also have "\<dots> \<le> length sixCategories" by (rule card_length)
  also have "\<dots> = 6" by (simp add: sixCategories_def)
  finally show ?thesis .
qed

lemma createStoryFromArticle_found:
  assumes "createStoryFromArticle now d a = (d', Inr st)"
  shows "findById d' (sid st) = Some st \<and> length (linksOf d' (sid st)) = 1"
proof -
  from createStoryFromArticle_Inr [OF assms] obtain link where
    s: "stories d' = stories d @ [st]" and l: "storySources d' = storySources d @ [link]" and
    i: "sid st = freshId d" "storyId link = freshId d"
    by blast
  have "\<forall>x \<in> set (stories d). \<not> sid x = sid st"
    using freshId_stories [of _ d] i(1) by (metis less_irrefl)
  then have f: "findById d' (sid st) = Some st"
    unfolding findById_def s by (rule find_append_fresh) simp
  have "filter (\<lambda>r. storyId r = freshId d) (storySources d) = []"
    unfolding filter_empty_conv using freshId_links [of _ d] by (metis less_irrefl)
  then have "linksOf d' (sid st) = [link]"
    by (simp add: linksOf_def l i)
  with f show ?thesis by simp
qed

text \<open>
  \<^bold>\<open>C7.\<close> A story as \<^verbatim>\<open>createStoryFromArticle\<close> stores it has \<open>sourceDiversity = 0\<close>
  although it has one linked source, whose single category gives 1/6 by the formula; and a
  name such as \<open>constructor\<close> is looked up on the object literal's prototype chain and maps
  to none of the six categories.
\<close>

theorem sourceDiversity_counterexample:
  "createStoryFromArticle 0 emptyDb storm_reuters = (stormDb, Inr storm_story) \<and>
   findById stormDb 1 = Some storm_story \<and>
   map sourceName (linksOf stormDb 1) = [''Reuters''] \<and>
   sourceDiversity storm_story = 0 \<and>
   calculateSourceDiversity stormDb 1 = 1 / 6 \<and>
   categoryOf ''constructor'' = Inherited ''constructor''"
  by code_simp

text \<open>
  \<^bold>\<open>C7, amended.\<close> The value \<^verbatim>\<open>calculateSourceDiversity\<close> computes for a story is in [0,1]
  and equals the number of distinct categories among its linked source names divided by 6
  and capped at 1. Every name that is not a member of \<^verbatim>\<open>Object.prototype\<close> maps to one of
  the six categories (unknown names to \<open>other\<close>), and then no cap is needed. A story whose
  linked sources all fall in one category gets 1/6. The stored \<open>sourceDiversity\<close> of a story
  is this value after every call of \<^verbatim>\<open>addArticleToStory\<close> that adds a link; a story just
  created stores 0 and has one link.
\<close>

theorem sourceDiversity_value:
  "0 \<le> calculateSourceDiversity d i \<and> calculateSourceDiversity d i \<le> 1 \<and>
   calculateSourceDiversity d i =
     min (of_nat (card (categoryOf ` sourceName ` set (linksOf d i))) / 6) 1 \<and>
   ((\<forall>r \<in> set (linksOf d i). sourceName r \<notin> set objectPrototypeMembers) \<longrightarrow>
      categoryOf ` sourceName ` set (linksOf d i) \<subseteq> Category ` set sixCategories \<and>
      calculateSourceDiversity d i =
        of_nat (card (categoryOf ` sourceName ` set (linksOf d i))) / 6) \<and>
   (linksOf d i \<noteq> [] \<and> (\<forall>r \<in> set (linksOf d i). categoryOf (sourceName r) = c) \<longrightarrow>
      calculateSourceDiversity d i = 1 / 6) \<and>
   (createStoryFromArticle now d a = (d', Inr st) \<longrightarrow>
      sourceDiversity st = 0 \<and> findById d' (sid st) = Some st \<and>
      length (linksOf d' (sid st)) = 1) \<and>
   (addArticleToStory now d i a sc = (d'', Inr (Linked st')) \<longrightarrow>
      (\<exists>p. findById d'' i = Some p \<and> sourceDiversity p = calculateSourceDiversity d'' i))"
proof (intro conjI impI)
  show "0 \<le> calculateSourceDiversity d i" "calculateSourceDiversity d i \<le> 1"
    by (simp_all add: calculateSourceDiversity_card)
  show "calculateSourceDiversity d i =
     min (of_nat (card (categoryOf ` sourceName ` set (linksOf d i))) / 6) 1"
    by (rule calculateSourceDiversity_card)
next
  assume h: "\<forall>r \<in> set (linksOf d i). sourceName r \<notin> set objectPrototypeMembers"
  then show sub: "categoryOf ` sourceName ` set (linksOf d i) \<subseteq> Category ` set sixCategories"
    by (auto intro: categoryOf_six)
  have "card (categoryOf ` sourceName ` set (linksOf d i)) \<le> card (Category ` set sixCategories)"
    by (rule card_mono [OF _ sub]) simp
  with card_six have "card (categoryOf ` sourceName ` set (linksOf d i)) \<le> 6" by simp
  then have "(of_nat (card (categoryOf ` sourceName ` set (linksOf d i))) :: rat) \<le> of_nat 6"
    by (simp only: of_nat_le_iff)
  then show "calculateSourceDiversity d i =
        of_nat (card (categoryOf ` sourceName ` set (linksOf d i))) / 6"
    by (simp add: calculateSourceDiversity_card)
next
  assume h: "linksOf d i \<noteq> [] \<and> (\<forall>r \<in> set (linksOf d i). categoryOf (sourceName r) = c)"
  then have "categoryOf ` sourceName ` set (linksOf d i) = {c}"
    by (cases "linksOf d i") auto
  then show "calculateSourceDiversity d i = 1 / 6"
    by (simp add: calculateSourceDiversity_card)
next
  assume h: "createStoryFromArticle now d a = (d', Inr st)"
  from createStoryFromArticle_Inr [OF h] show "sourceDiversity st = 0" by blast
  from createStoryFromArticle_found [OF h]
  show "findById d' (sid st) = Some st" "length (linksOf d' (sid st)) = 1" by simp_all
next
  assume h: "addArticleToStory now d i a sc = (d'', Inr (Linked st'))"
  from addArticleToStory_Linked [OF h] obtain st where
    st': "st' = st\<lparr>sourceCount := sourceCount st + 1, lastUpdated := now,
                sourceDiversity := calculateSourceDiversity d'' i,
                averageCredibility := calculateAverageCredibility d'' i\<rparr>"
    by blast
  have "sourceDiversity (st'\<lparr>importanceScore := importanceOf now st'\<rparr>) =
        calculateSourceDiversity d'' i"
    by (subst st') simp
  with addArticleToStory_Linked_persisted [OF h]
  show "\<exists>p. findById d'' i = Some p \<and> sourceDiversity p = calculateSourceDiversity d'' i"
    by blast
qed

theorem sourceDiversity_value_witness:
  "list_all (\<lambda>r. sourceName r \<notin> set objectPrototypeMembers) (linksOf stormDb2 1) \<and>
   categoryOf ` sourceName ` set (linksOf stormDb2 1) \<subseteq> Category ` set sixCategories \<and>
   calculateSourceDiversity stormDb2 1 =
     of_nat (card (categoryOf ` sourceName ` set (linksOf stormDb2 1))) / 6 \<and>
   linksOf stormDb 1 \<noteq> [] \<and>
   list_all (\<lambda>r. categoryOf (sourceName r) = Category ''wire'') (linksOf stormDb 1) \<and>
   calculateSourceDiversity stormDb 1 = 1 / 6 \<and>
   createStoryFromArticle 0 emptyDb storm_reuters = (stormDb, Inr storm_story) \<and>
   sourceDiversity storm_story = 0 \<and> findById stormDb (sid storm_story) = Some storm_story \<and>
   length (linksOf stormDb (sid storm_story)) = 1 \<and>
   addArticleToStory 0 stormDb 1 storm_bbc 1 = (stormDb2, Inr (Linked storm_story2)) \<and>
   (\<exists>p. findById stormDb2 1 = Some p \<and> sourceDiversity p = calculateSourceDiversity stormDb2 1)"
proof -
  have h1': "list_all (\<lambda>r. sourceName r \<notin> set objectPrototypeMembers) (linksOf stormDb2 1)"
    by code_simp
  then have h1: "\<forall>r \<in> set (linksOf stormDb2 1). sourceName r \<notin> set objectPrototypeMembers"
    unfolding list_all_iff .
  have h2': "linksOf stormDb 1 \<noteq> [] \<and>
     list_all (\<lambda>r. categoryOf (sourceName r) = Category ''wire'') (linksOf stormDb 1)"
    by code_simp
  then have h2: "linksOf stormDb 1 \<noteq> [] \<and>
     (\<forall>r \<in> set (linksOf stormDb 1). categoryOf (sourceName r) = Category ''wire'')"
    unfolding list_all_iff .
  have h3: "createStoryFromArticle 0 emptyDb storm_reuters = (stormDb, Inr storm_story)"
    by code_simp
  have h4: "addArticleToStory 0 stormDb 1 storm_bbc 1 = (stormDb2, Inr (Linked storm_story2))"
    by (simp add: store_eval storm_defs)
  note T1 = sourceDiversity_value [where d = stormDb2 and i = 1]
  note T2 = sourceDiversity_value [where d = stormDb and i = 1 and c = "Category ''wire''"]
  note T3 = sourceDiversity_value [where d = emptyDb and now = 0 and a = storm_reuters
      and d' = stormDb and st = storm_story]
  note T4 = sourceDiversity_value [where d = stormDb and i = 1 and now = 0 and a = storm_bbc
      and sc = 1 and d'' = stormDb2 and st' = storm_story2]
  from T1 h1 have c1: "categoryOf ` sourceName ` set (linksOf stormDb2 1) \<subseteq> Category ` set sixCategories \<and>
   calculateSourceDiversity stormDb2 1 =
     of_nat (card (categoryOf ` sourceName ` set (linksOf stormDb2 1))) / 6" by blast
  from T2 h2 have c2: "calculateSourceDiversity stormDb 1 = 1 / 6" by blast
  from T3 h3 have c3: "sourceDiversity storm_story = 0 \<and>
     findById stormDb (sid storm_story) = Some storm_story \<and>
     length (linksOf stormDb (sid storm_story)) = 1" by blast
  from T4 h4 have c4: "\<exists>p. findById stormDb2 1 = Some p \<and>
     sourceDiversity p = calculateSourceDiversity stormDb2 1" by blast
  from h1' c1 h2' c2 h3 c3 h4 c4 show ?thesis by blast
qed

section \<open>The clustering batch\<close>

text \<open>
  \<^bold>\<open>C6.\<close> An article that already has a link (matched by its id) is skipped: the store
  is left as it is, so no second link is created and no source count incremented, and the
  batch counts one skipped article. Whenever processing an article has added a link,
  processing the same article again is such a skip.
\<close>

theorem processArticle_idempotent:
  "((\<exists>r \<in> set (storySources d). articleId r = aid a) \<longrightarrow>
      processArticle now d a = (d, Skipped) \<and>
      clusterArticles d [(now, a)] =
        (d, \<lparr> newStories = 0, mergedArticles = 0, skipped = 1, errors = 0 \<rparr>) \<and>
      clusterLoop ((now, a) # rest) (d, res) =
        clusterLoop rest (d, res\<lparr>skipped := skipped res + 1\<rparr>)) \<and>
   (processArticle now d a = (d', out) \<and> storySources d' \<noteq> storySources d \<longrightarrow>
      processArticle now' d' a = (d', Skipped))"
proof (intro conjI impI)
  assume h: "\<exists>r \<in> set (storySources d). articleId r = aid a"
  then show p: "processArticle now d a = (d, Skipped)" by (simp add: processArticle_def)
  then show "clusterArticles d [(now, a)] =
        (d, \<lparr> newStories = 0, mergedArticles = 0, skipped = 1, errors = 0 \<rparr>)"
    by (simp add: clusterArticles_def count_def)
  from p show "clusterLoop ((now, a) # rest) (d, res) =
        clusterLoop rest (d, res\<lparr>skipped := skipped res + 1\<rparr>)"
    by (simp add: count_def)
next
  assume h: "processArticle now d a = (d', out) \<and> storySources d' \<noteq> storySources d"
  have "\<exists>link. storySources d' = storySources d @ [link] \<and> articleId link = aid a"
  proof (cases "\<exists>r \<in> set (storySources d). articleId r = aid a")
    case True
    with h show ?thesis by (auto simp: processArticle_def)
  next
    case False
    show ?thesis
    proof (cases "findMatchingStory now d a")
      case None
      obtain res where "createStoryFromArticle now d a = (d', res)"
        using h False None unfolding processArticle_def
        by (cases "createStoryFromArticle now d a") (auto split: sum.splits)
      from createStoryFromArticle_storySources [OF this] h show ?thesis by blast
    next
      case (Some m)
      obtain st sc where m: "m = (st, sc)" by (cases m)
      obtain res where "addArticleToStory now d (sid st) a sc = (d', res)"
        using h False Some m unfolding processArticle_def
        by (cases "addArticleToStory now d (sid st) a sc") (auto split: sum.splits)
      from addArticleToStory_storySources [OF this] h show ?thesis by blast
    qed
  qed
  then have "\<exists>r \<in> set (storySources d'). articleId r = aid a" by auto
  then show "processArticle now' d' a = (d', Skipped)" by (simp add: processArticle_def)
qed

theorem processArticle_idempotent_witness:
  "(\<exists>r \<in> set (storySources stormDb). articleId r = aid storm_reuters) \<and>
   processArticle 7 stormDb storm_reuters = (stormDb, Skipped) \<and>
   clusterArticles stormDb [(7, storm_reuters)] =
     (stormDb, \<lparr> newStories = 0, mergedArticles = 0, skipped = 1, errors = 0 \<rparr>) \<and>
   processArticle 0 emptyDb storm_reuters = (stormDb, NewStory) \<and>
   storySources stormDb \<noteq> storySources emptyDb \<and>
   processArticle 9 stormDb storm_reuters = (stormDb, Skipped)"
proof -
  have h1: "\<exists>r \<in> set (storySources stormDb). articleId r = aid storm_reuters" by code_simp
  have h2: "processArticle 0 emptyDb storm_reuters = (stormDb, NewStory) \<and>
            storySources stormDb \<noteq> storySources emptyDb" by code_simp
  note T1 = processArticle_idempotent [where d = stormDb and a = storm_reuters and now = 7
      and rest = "[]"]
  note T2 = processArticle_idempotent [where d = emptyDb and a = storm_reuters and now = 0
      and d' = stormDb and out = NewStory and now' = 9]
  from T1 h1 have c1: "processArticle 7 stormDb storm_reuters = (stormDb, Skipped) \<and>
     clusterArticles stormDb [(7, storm_reuters)] =
       (stormDb, \<lparr> newStories = 0, mergedArticles = 0, skipped = 1, errors = 0 \<rparr>)" by blast
  from T2 h2 have c2: "processArticle 9 stormDb storm_reuters = (stormDb, Skipped)" by blast
  from h1 c1 h2 c2 show ?thesis by blast
qed

text \<open>
  \<^bold>\<open>C10.\<close> A failed article can change the outcome of a later one: \<open>storm_no_url\<close> fails
  when its link is created, after its story has been stored; the next article, which would
  start a new story in a batch of its own, is then merged into that story.
\<close>

theorem clusterArticles_isolation_counterexample:
  "snd (processArticle 0 emptyDb storm_no_url) = Failed ValidationError \<and>
   map canonicalTitle (stories (fst (processArticle 0 emptyDb storm_no_url))) = [''Storm hits coast''] \<and>
   storySources (fst (processArticle 0 emptyDb storm_no_url)) = [] \<and>
   snd (clusterArticles emptyDb [(0, storm_no_url), (0, storm_bbc)]) =
     \<lparr> newStories = 0, mergedArticles = 1, skipped = 0, errors = 1 \<rparr> \<and>
   snd (clusterArticles emptyDb [(0, storm_bbc)]) =
     \<lparr> newStories = 1, mergedArticles = 0, skipped = 0, errors = 0 \<rparr>"
  by code_simp

text \<open>
  \<^bold>\<open>C10, amended.\<close> The four counts of a batch sum to its length. The articles are
  processed in sequence: the result of a batch \<open>xs @ ys\<close> is that of \<open>ys\<close> run on the store
  \<open>xs\<close> has left, with the counts added. An exception while one article is processed is
  caught and counted as one error, and the remaining articles are processed on the store
  the failed article has left (its earlier writes stay). An article without a source name
  fails before any write, and then the batch gives what it gives without that article, plus
  one error.
\<close>

theorem clusterArticles_counts:
  "(case clusterArticles d batch of
      (d', res) \<Rightarrow> newStories res + mergedArticles res + skipped res + errors res = length batch) \<and>
   clusterArticles d (xs @ ys) =
     (case clusterArticles d xs of
        (d1, r1) \<Rightarrow> (case clusterArticles d1 ys of (d2, r2) \<Rightarrow> (d2, addResults r1 r2))) \<and>
   (processArticle now d a = (df, Failed e) \<longrightarrow>
      clusterArticles d ((now, a) # rest) =
        (case clusterArticles df rest of (d2, r) \<Rightarrow> (d2, r\<lparr>errors := errors r + 1\<rparr>))) \<and>
   (source a = None \<and> \<not> (\<exists>r \<in> set (storySources d). articleId r = aid a) \<longrightarrow>
      processArticle now d a = (d, Failed ValidationError) \<and>
      clusterArticles d ((now, a) # rest) =
        (case clusterArticles d rest of (d2, r) \<Rightarrow> (d2, r\<lparr>errors := errors r + 1\<rparr>)))"
proof -
  let ?z = "\<lparr> newStories = 0, mergedArticles = 0, skipped = 0, errors = 0 \<rparr>"
  have total: "case clusterArticles d batch of
      (d', res) \<Rightarrow> newStories res + mergedArticles res + skipped res + errors res = length batch"
    unfolding clusterArticles_def
    using clusterLoop_total [of batch d ?z] by (auto split: prod.splits)
  have app: "clusterArticles d (xs @ ys) =
     (case clusterArticles d xs of
        (d1, r1) \<Rightarrow> (case clusterArticles d1 ys of (d2, r2) \<Rightarrow> (d2, addResults r1 r2)))"
  proof -
    obtain d1 r1 where x: "clusterLoop xs (d, ?z) = (d1, r1)" by (cases "clusterLoop xs (d, ?z)")
    have "clusterLoop ys (d1, addResults r1 ?z) =
          (case clusterLoop ys (d1, ?z) of (d', r') \<Rightarrow> (d', addResults r1 r'))"
      by (rule clusterLoop_shift)
    then show ?thesis
      unfolding clusterArticles_def clusterLoop_append x by (simp add: addResults_zero)
  qed
  have failed: "clusterArticles d ((now, a) # rest) =
        (case clusterArticles d1 rest of (d2, r) \<Rightarrow> (d2, r\<lparr>errors := errors r + 1\<rparr>))"
    if p: "processArticle now d a = (d1, Failed e)" for d1 e
  proof -
    have c: "count (Failed e) ?z = addResults (?z\<lparr>errors := 1\<rparr>) ?z"
      by (simp add: count_def addResults_def)
    have "clusterLoop rest (d1, addResults (?z\<lparr>errors := 1\<rparr>) ?z) =
          (case clusterLoop rest (d1, ?z) of (d', r') \<Rightarrow> (d', addResults (?z\<lparr>errors := 1\<rparr>) r'))"
      by (rule clusterLoop_shift)
    moreover have "addResults (?z\<lparr>errors := 1\<rparr>) r = r\<lparr>errors := errors r + 1\<rparr>" for r
      by (simp add: addResults_def)
    ultimately show ?thesis
      unfolding clusterArticles_def by (simp add: p c)
  qed
  have nosource: "processArticle now d a = (d, Failed ValidationError)"
    if h: "source a = None \<and> \<not> (\<exists>r \<in> set (storySources d). articleId r = aid a)"
  proof (cases "findMatchingStory now d a")
    case None
    then show ?thesis using h
      by (simp add: processArticle_def createStoryFromArticle_def getOrCreate_None)
  next
    case (Some m)
    obtain st sc where m: "m = (st, sc)" by (cases m)
    from findMatchingStory_Some [OF Some [unfolded m]] findById_member
    obtain st0 where "findById d (sid st) = Some st0" by blast
    then have "addArticleToStory now d (sid st) a sc = (d, Inl ValidationError)"
      using h by (simp add: addArticleToStory_def getOrCreate_None)
    then show ?thesis using h Some m by (simp add: processArticle_def)
  qed
  from total app failed nosource show ?thesis by blast
qed

theorem clusterArticles_counts_witness:
  "processArticle 0 emptyDb storm_no_url =
     (emptyDb\<lparr>stories := [storm_story], sources := [reuters_doc]\<rparr>, Failed ValidationError) \<and>
   clusterArticles emptyDb [(0, storm_no_url), (0, storm_bbc)] =
     (case clusterArticles (emptyDb\<lparr>stories := [storm_story], sources := [reuters_doc]\<rparr>)
             [(0, storm_bbc)] of
        (d2, r) \<Rightarrow> (d2, r\<lparr>errors := errors r + 1\<rparr>)) \<and>
   source article0 = None \<and> \<not> (\<exists>r \<in> set (storySources stormDb). articleId r = aid article0) \<and>
   processArticle 0 stormDb article0 = (stormDb, Failed ValidationError) \<and>
   clusterArticles stormDb [(0, article0), (0, storm_bbc)] =
     (case clusterArticles stormDb [(0, storm_bbc)] of
        (d2, r) \<Rightarrow> (d2, r\<lparr>errors := errors r + 1\<rparr>))"
proof -
  have h1: "processArticle 0 emptyDb storm_no_url =
     (emptyDb\<lparr>stories := [storm_story], sources := [reuters_doc]\<rparr>, Failed ValidationError)"
    by code_simp
  have h2: "source article0 = None \<and>
     \<not> (\<exists>r \<in> set (storySources stormDb). articleId r = aid article0)"
    by code_simp
  note T1 = clusterArticles_counts [where d = emptyDb and now = 0 and a = storm_no_url
      and df = "emptyDb\<lparr>stories := [storm_story], sources := [reuters_doc]\<rparr>"
      and e = ValidationError and rest = "[(0, storm_bbc)]"]
  note T2 = clusterArticles_counts [where d = stormDb and now = 0 and a = article0
      and rest = "[(0, storm_bbc)]"]
  from T1 h1 have c1: "clusterArticles emptyDb [(0, storm_no_url), (0, storm_bbc)] =
     (case clusterArticles (emptyDb\<lparr>stories := [storm_story], sources := [reuters_doc]\<rparr>)
             [(0, storm_bbc)] of
        (d2, r) \<Rightarrow> (d2, r\<lparr>errors := errors r + 1\<rparr>))" by blast
  from T2 h2 have c2: "processArticle 0 stormDb article0 = (stormDb, Failed ValidationError) \<and>
   clusterArticles stormDb [(0, article0), (0, storm_bbc)] =
     (case clusterArticles stormDb [(0, storm_bbc)] of
        (d2, r) \<Rightarrow> (d2, r\<lparr>errors := errors r + 1\<rparr>))" by blast
  from h1 c1 h2 c2 show ?thesis by blast
qed

section \<open>Ranked pages\<close>

















section \<open>Context timeline\<close>

lemma calculateRelevance_other_category:
  "category s1 \<noteq> category s2 \<Longrightarrow> calculateRelevance s1 s2 = 0"
  by (simp add: calculateRelevance_def)

lemma calculateRelevance_jaccard:
  assumes "category s1 = category s2"
    and "distinct (extractSignificantWords (canonicalTitle s1))"
  shows "calculateRelevance s1 s2 =
     of_nat (card (set (extractSignificantWords (canonicalTitle s1)) \<inter>
                   set (extractSignificantWords (canonicalTitle s2)))) /
     of_nat (card (set (extractSignificantWords (canonicalTitle s1)) \<union>
                   set (extractSignificantWords (canonicalTitle s2))))"
proof -
  let ?w1 = "extractSignificantWords (canonicalTitle s1)"
  let ?w2 = "extractSignificantWords (canonicalTitle s2)"
  have i: "length (filter (\<lambda>w. w \<in> set ?w2) ?w1) = card (set ?w1 \<inter> set ?w2)"
    using assms(2) by (simp add: distinct_length_filter Int_commute Collect_mem_eq)
  have u: "length (remdups (?w1 @ ?w2)) = card (set ?w1 \<union> set ?w2)"
    by (simp add: length_remdups_card_conv)
  show ?thesis
    using assms(1) unfolding calculateRelevance_def Let_def i u by simp
qed

lemma sorted_desc_key:
  fixes f :: "'a \<Rightarrow> int"
  shows "sorted_wrt (\<lambda>x y. f y \<le> f x) (sort_key (\<lambda>x. - f x) xs)"
proof -
  have "sorted (map (\<lambda>x. - f x) (sort_key (\<lambda>x. - f x) xs))" by (rule sorted_sort_key)
  then show ?thesis by (simp add: sorted_map)
qed

text \<open>
  \<^bold>\<open>C4.\<close> Of eleven earlier stories of the same category and title only ten are
  considered: the total is 10, not 11. The stop-word list of the timeline is not that of
  the similarity engine (\<open>when\<close> is significant here and a stop word there). A word the
  story's title repeats is counted once per occurrence, so the relevance is not a Jaccard
  index of word sets (3 for \<open>Storm storm storm\<close> against \<open>Storm\<close>).
\<close>

theorem buildTimeline_counterexample:
  "map_option totalRelated (buildTimeline 100 tlDb 100 30) = Some 10 \<and>
   length (filter (\<lambda>r. inWindow 100 100 (tlStory 100) 30 r \<and>
                        3 / 10 < calculateRelevance (tlStory 100) r) (stories tlDb)) = 11 \<and>
   extractSignificantWords ''when'' = [''when''] \<and> extractWords ''when'' = [] \<and>
   calculateRelevance (story0\<lparr>canonicalTitle := ''Storm storm storm''\<rparr>)
                      (story0\<lparr>canonicalTitle := ''Storm''\<rparr>) = 3"
  by code_simp

text \<open>
  \<^bold>\<open>C4, amended.\<close> \<^verbatim>\<open>buildTimeline\<close> considers the 10 most recently first-seen stories
  among those other than the story, in its category, first seen in
  \<open>[now - days, story.firstSeen)\<close>. It keeps those whose relevance exceeds 0.3, sorts them by
  date descending and returns the first 5 with the number kept (at most 10) as total. Every
  entry precedes the story and is in its category; the relevance of a story of another
  category is 0. For a title without a repeated significant word the relevance is the
  Jaccard index of the two sets of significant title words (longer than 3 characters, not in
  the timeline's own stop-word list).
\<close>

theorem buildTimeline_contents:
  assumes "buildTimeline now d i days = Some res"
  shows "\<exists>story recent entries.
     findById d i = Some story \<and>
     mset recent = mset (filter (inWindow now i story days) (stories d)) \<and>
     sorted_wrt (\<lambda>x y. firstSeen y \<le> firstSeen x) recent \<and>
     mset entries = mset (map (timelineEntry story)
                            (filter (\<lambda>r. 3 / 10 < calculateRelevance story r) (take 10 recent))) \<and>
     sorted_wrt (\<lambda>x y. e_date y \<le> e_date x) entries \<and>
     timeline res = take 5 entries \<and> totalRelated res = length entries \<and>
     length (timeline res) \<le> 5 \<and> totalRelated res \<le> 10 \<and>
     (\<forall>e \<in> set (timeline res).
        \<exists>r \<in> set (stories d). e = timelineEntry story r \<and> inWindow now i story days r \<and>
           3 / 10 < calculateRelevance story r \<and> e_relationship e = PRECEDES) \<and>
     (\<forall>r. category r \<noteq> category story \<longrightarrow>
          calculateRelevance story r = 0 \<and> \<not> inWindow now i story days r) \<and>
     (\<forall>r. category story = category r \<and>
          distinct (extractSignificantWords (canonicalTitle story)) \<longrightarrow>
          calculateRelevance story r =
            of_nat (card (set (extractSignificantWords (canonicalTitle story)) \<inter>
                          set (extractSignificantWords (canonicalTitle r)))) /
            of_nat (card (set (extractSignificantWords (canonicalTitle story)) \<union>
                          set (extractSignificantWords (canonicalTitle r)))))"
proof -
  from assms obtain story where st: "findById d i = Some story"
    unfolding buildTimeline_def by (auto split: option.splits)
  define recent where
    "recent = sort_key (\<lambda>r. - firstSeen r) (filter (inWindow now i story days) (stories d))"
  define kept where "kept = filter (\<lambda>r. 3 / 10 < calculateRelevance story r) (take 10 recent)"
  define entries where "entries = sort_key (\<lambda>e. - e_date e) (map (timelineEntry story) kept)"
  have res: "res = \<lparr> currentStory = (sid story, canonicalTitle story, firstSeen story),
                     timeline = take 5 entries, totalRelated = length entries \<rparr>"
    using assms unfolding buildTimeline_def st relatedStories_def Let_def
      entries_def kept_def recent_def by simp
  have m1: "mset recent = mset (filter (inWindow now i story days) (stories d))"
    by (simp add: recent_def)
  have s1: "sorted_wrt (\<lambda>x y. firstSeen y \<le> firstSeen x) recent"
    unfolding recent_def by (rule sorted_desc_key)
  have m2: "mset entries = mset (map (timelineEntry story) kept)"
    by (simp add: entries_def)
  have s2: "sorted_wrt (\<lambda>x y. e_date y \<le> e_date x) entries"
    unfolding entries_def by (rule sorted_desc_key)
  have l2: "length entries \<le> 10"
  proof -
    have "length entries = length kept" by (simp add: entries_def)
    also have "\<dots> \<le> length (take 10 recent)" unfolding kept_def by (rule length_filter_le)
    also have "\<dots> \<le> 10" by simp
    finally show ?thesis .
  qed
  have each: "\<exists>r \<in> set (stories d). e = timelineEntry story r \<and> inWindow now i story days r \<and>
           3 / 10 < calculateRelevance story r \<and> e_relationship e = PRECEDES"
    if "e \<in> set (take 5 entries)" for e
  proof -
    from that have "e \<in> set entries" by (rule in_set_takeD)
    then have "e \<in> set (map (timelineEntry story) kept)" by (simp add: entries_def)
    then obtain r where r: "r \<in> set kept" "e = timelineEntry story r" by auto
    from r(1) have rel: "3 / 10 < calculateRelevance story r" and "r \<in> set (take 10 recent)"
      by (simp_all add: kept_def)
    then have "r \<in> set recent" by (meson in_set_takeD)
    then have w: "r \<in> set (stories d)" "inWindow now i story days r"
      by (simp_all add: recent_def)
    then have "e_relationship e = PRECEDES"
      by (simp add: r(2) timelineEntry_def determineRelationship_def inWindow_def)
    with w rel r(2) show ?thesis by blast
  qed
  have other: "calculateRelevance story r = 0 \<and> \<not> inWindow now i story days r"
    if "category r \<noteq> category story" for r
    using that calculateRelevance_other_category [of story r] by (auto simp: inWindow_def)
  have jac: "calculateRelevance story r =
            of_nat (card (set (extractSignificantWords (canonicalTitle story)) \<inter>
                          set (extractSignificantWords (canonicalTitle r)))) /
            of_nat (card (set (extractSignificantWords (canonicalTitle story)) \<union>
                          set (extractSignificantWords (canonicalTitle r))))"
    if "category story = category r \<and> distinct (extractSignificantWords (canonicalTitle story))" for r
    using that by (intro calculateRelevance_jaccard) simp_all
  show ?thesis
    apply (rule exI [of _ story], rule exI [of _ recent], rule exI [of _ entries])
    using st m1 s1 m2 s2 l2 each other jac
    by (simp add: res kept_def)
qed

theorem buildTimeline_contents_witness:
  "buildTimeline 100 tlDb 100 30 = Some tlResult \<and>
   (\<exists>story recent entries.
     findById tlDb 100 = Some story \<and>
     mset recent = mset (filter (inWindow 100 100 story 30) (stories tlDb)) \<and>
     sorted_wrt (\<lambda>x y. firstSeen y \<le> firstSeen x) recent \<and>
     mset entries = mset (map (timelineEntry story)
                            (filter (\<lambda>r. 3 / 10 < calculateRelevance story r) (take 10 recent))) \<and>
     sorted_wrt (\<lambda>x y. e_date y \<le> e_date x) entries \<and>
     timeline tlResult = take 5 entries \<and> totalRelated tlResult = length entries \<and>
     length (timeline tlResult) \<le> 5 \<and> totalRelated tlResult \<le> 10 \<and>
     (\<forall>e \<in> set (timeline tlResult).
        \<exists>r \<in> set (stories tlDb). e = timelineEntry story r \<and> inWindow 100 100 story 30 r \<and>
           3 / 10 < calculateRelevance story r \<and> e_relationship e = PRECEDES) \<and>
     (\<forall>r. category r \<noteq> category story \<longrightarrow>
          calculateRelevance story r = 0 \<and> \<not> inWindow 100 100 story 30 r) \<and>
     (\<forall>r. category story = category r \<and>
          distinct (extractSignificantWords (canonicalTitle story)) \<longrightarrow>
          calculateRelevance story r =
            of_nat (card (set (extractSignificantWords (canonicalTitle story)) \<inter>
                          set (extractSignificantWords (canonicalTitle r)))) /
            of_nat (card (set (extractSignificantWords (canonicalTitle story)) \<union>
                          set (extractSignificantWords (canonicalTitle r))))))"
proof -
  have h: "buildTimeline 100 tlDb 100 30 = Some tlResult" by code_simp
  from h buildTimeline_contents [OF h] show ?thesis by (rule conjI)
qed

end
